theory Spec2Isabelle
  imports Main "HOL-Library.Word" "HOL-Library.Multiset"
begin

section \<open>Constants and data of axscale.c\<close>

text \<open>
  \<open>ABS_X\<close>, \<open>ABS_RZ\<close> and \<open>EV_ABS\<close> are not defined in axscale.c: they come from
  the Linux header linux/input-event-codes.h, which libevdev/libevdev.h includes. That
  header has \<^verbatim>\<open>#define EV_ABS 0x03\<close>, \<^verbatim>\<open>#define ABS_X 0x00\<close>, \<^verbatim>\<open>#define ABS_Y 0x01\<close>,
  \<^verbatim>\<open>#define ABS_Z 0x02\<close>, \<^verbatim>\<open>#define ABS_RX 0x03\<close>, \<^verbatim>\<open>#define ABS_RY 0x04\<close> and
  \<^verbatim>\<open>#define ABS_RZ 0x05\<close>. \<open>USHRT_MAX\<close> is from limits.h (16-bit unsigned short).
\<close>

definition EV_ABS :: int where
  "EV_ABS = 3"

definition ABS_X :: int where
  "ABS_X = 0"

definition ABS_RZ :: int where
  "ABS_RZ = 5"

definition USHRT_MAX :: "32 word" where
  "USHRT_MAX = 65535"

definition LIBEVDEV_READ_STATUS_SYNC :: int where
  "LIBEVDEV_READ_STATUS_SYNC = 1"

text \<open>Lines 60-62: \<^verbatim>\<open>#define AXIS_COUNT (AXIS_Z - AXIS_A + 1)\<close>.\<close>

definition AXIS_A :: int where
  "AXIS_A = ABS_X"

definition AXIS_Z :: int where
  "AXIS_Z = ABS_RZ"

definition AXIS_COUNT :: nat where
  "AXIS_COUNT = nat (AXIS_Z - AXIS_A + 1)"

text \<open>
  \<^verbatim>\<open>struct axis_range { bool present; unsigned int min; unsigned int max; }\<close>.
  The fields \<open>min\<close> and \<open>max\<close> are named \<open>min_val\<close> and \<open>max_val\<close> here. An
  \<^verbatim>\<open>unsigned int\<close> and an \<^verbatim>\<open>int\<close> are both a \<open>32 word\<close>: \<open><\<close> on words is the
  unsigned comparison, \<open>sint\<close> reads the word as the signed \<^verbatim>\<open>int\<close>.
\<close>

record axis_range =
  present :: bool
  min_val :: "32 word"
  max_val :: "32 word"

text \<open>\<^verbatim>\<open>axis_range axes_ranges[AXIS_COUNT] = {0};\<close>\<close>

definition zero_range :: axis_range where
  "zero_range = \<lparr>present = False, min_val = 0, max_val = 0\<rparr>"

definition zero_ranges :: "axis_range list" where
  "zero_ranges = replicate AXIS_COUNT zero_range"

text \<open>
  The part of \<^verbatim>\<open>struct libevdev\<close> the program touches: the event codes the device
  has, and the minimum and maximum of each absolute axis. \<open>abs_calls\<close> records the calls
  of the two setters in the order they are made.
\<close>

datatype abs_call = SetAbsMinimum int "32 word" | SetAbsMaximum int "32 word"

record libevdev =
  has_event_code :: "int \<Rightarrow> int \<Rightarrow> bool"
  abs_minimum :: "int \<Rightarrow> 32 word"
  abs_maximum :: "int \<Rightarrow> 32 word"
  abs_calls :: "abs_call list"

definition libevdev_has_event_code :: "libevdev \<Rightarrow> int \<Rightarrow> int \<Rightarrow> bool" where
  "libevdev_has_event_code dev t c = has_event_code dev t c"

text \<open>Both setters have no effect on a code the device does not have.\<close>

definition libevdev_set_abs_minimum :: "libevdev \<Rightarrow> int \<Rightarrow> 32 word \<Rightarrow> libevdev" where
  "libevdev_set_abs_minimum dev c v =
     (let dev1 = dev\<lparr>abs_calls := abs_calls dev @ [SetAbsMinimum c v]\<rparr>
      in if has_event_code dev EV_ABS c
         then dev1\<lparr>abs_minimum := (abs_minimum dev)(c := v)\<rparr> else dev1)"

definition libevdev_set_abs_maximum :: "libevdev \<Rightarrow> int \<Rightarrow> 32 word \<Rightarrow> libevdev" where
  "libevdev_set_abs_maximum dev c v =
     (let dev1 = dev\<lparr>abs_calls := abs_calls dev @ [SetAbsMaximum c v]\<rparr>
      in if has_event_code dev EV_ABS c
         then dev1\<lparr>abs_maximum := (abs_maximum dev)(c := v)\<rparr> else dev1)"

text \<open>
  \<^verbatim>\<open>struct input_event\<close>: \<^verbatim>\<open>__u16 type; __u16 code; __s32 value;\<close> (the time stamp is
  never read).
\<close>

record input_event =
  ev_type :: "16 word"
  ev_code :: "16 word"
  ev_value :: "32 word"

text \<open>The failures the two operations report, one per \<^verbatim>\<open>return false\<close> of the source.\<close>

datatype error =
    OpenError
  | SigprocmaskError
  | SignalfdError
  | PollError
  | PollUnknown
  | ReadError int
  | WriteError
  | InternalInconsistency int
  | MismatchError int
  | IndexOutOfBounds int

section \<open>Decimal output: fprintf\<close>

definition digit_char :: "nat \<Rightarrow> char" where
  "digit_char d = char_of (48 + d)"

fun dec :: "nat \<Rightarrow> string" where
  "dec n = (if n < 10 then [digit_char n] else dec (n div 10) @ [digit_char (n mod 10)])"

declare dec.simps [simp del]

text \<open>\<^verbatim>\<open>%d\<close> prints its argument as a signed decimal, \<^verbatim>\<open>%u\<close> as an unsigned one.\<close>

definition print_d :: "32 word \<Rightarrow> string" where
  "print_d w = (if sint w < 0 then CHR ''-'' # dec (nat (- sint w)) else dec (nat (sint w)))"

definition print_u :: "32 word \<Rightarrow> string" where
  "print_u w = dec (unat w)"

text \<open>
  The output of \<^verbatim>\<open>fprintf\<close> for a format with \<^verbatim>\<open>%d\<close> and \<^verbatim>\<open>%u\<close> conversions only;
  every other character is copied. A conversion with no argument left prints nothing.
\<close>

fun sprintf :: "string \<Rightarrow> 32 word list \<Rightarrow> string" where
  "sprintf [] args = []"
| "sprintf (c # fmt) args =
     (if c = CHR ''%'' then
        (case fmt of
           [] \<Rightarrow> []
         | k # fmt' \<Rightarrow>
             (case args of
                [] \<Rightarrow> sprintf fmt' []
              | a # args' \<Rightarrow>
                  (if k = CHR ''d'' then print_d a @ sprintf fmt' args'
                   else if k = CHR ''u'' then print_u a @ sprintf fmt' args'
                   else sprintf fmt' args)))
      else c # sprintf fmt args)"

text \<open>\<^verbatim>\<open>#define MAP_FILE_LINE_FORMAT "axis %d: min = %u, max = %u\n"\<close>\<close>

definition MAP_FILE_LINE_FORMAT :: string where
  "MAP_FILE_LINE_FORMAT = ''axis %d: min = %u, max = %u\<newline>''"

section \<open>detect\<close>

text \<open>
  What the environment does during one run of \<open>detect\<close>: whether \<^verbatim>\<open>fopen(map_file, "w")\<close>,
  \<^verbatim>\<open>sigprocmask\<close> and \<^verbatim>\<open>signalfd\<close> succeed, and whether the \<open>k\<close>-th call of
  \<^verbatim>\<open>fprintf\<close> does.
\<close>

record detect_env =
  fopen_w_ok :: bool
  sigprocmask_ok :: bool
  signalfd_ok :: bool
  fprintf_ok :: "nat \<Rightarrow> bool"

text \<open>
  One return of \<^verbatim>\<open>poll\<close>: it fails, or it reports whether \<^verbatim>\<open>POLLIN\<close> is set in
  \<^verbatim>\<open>fds[0].revents\<close> (the device) and in \<^verbatim>\<open>fds[1].revents\<close> (the signal descriptor),
  together with what \<^verbatim>\<open>libevdev_next_event\<close> returns and stores if it is called at
  this wake-up.
\<close>

datatype wake = PollFailed | Revents bool bool int input_event

text \<open>
  The result of a run: what \<open>detect\<close> returns (\<open>Inr ()\<close> for \<^verbatim>\<open>true\<close>), the table at
  that moment, the content of the map file (\<open>None\<close> when it was never opened), and the
  wake-ups the run did not reach.
\<close>

record detect_out =
  ret :: "error + unit"
  ranges :: "axis_range list"
  map_file :: "string option"
  unread :: "wake list"

text \<open>Lines 94-102.\<close>

fun init_ranges :: "libevdev \<Rightarrow> int list \<Rightarrow> axis_range list \<Rightarrow> axis_range list" where
  "init_ranges dev [] tbl = tbl"
| "init_ranges dev (axis # rest) tbl =
     init_ranges dev rest
       (if libevdev_has_event_code dev EV_ABS axis
        then tbl[nat (axis - AXIS_A) := \<lparr>present = True, min_val = USHRT_MAX, max_val = 0\<rparr>]
        else tbl)"

text \<open>Lines 140-150: one line per present axis; \<open>k\<close> counts the calls of \<^verbatim>\<open>fprintf\<close>.\<close>

fun write_ranges ::
  "(nat \<Rightarrow> bool) \<Rightarrow> nat \<Rightarrow> axis_range list \<Rightarrow> int list \<Rightarrow> string \<Rightarrow> (error + unit) \<times> string" where
  "write_ranges ok k tbl [] out = (Inr (), out)"
| "write_ranges ok k tbl (axis # rest) out =
     (let rg = tbl ! nat (axis - AXIS_A) in
      if present rg then
        (if ok k
         then write_ranges ok (Suc k) tbl rest
                (out @ sprintf MAP_FILE_LINE_FORMAT
                         [word_of_int axis, min_val rg, max_val rg])
         else (Inl WriteError, out))
      else write_ranges ok k tbl rest out)"

text \<open>
  Lines 173-178. \<^verbatim>\<open>event.value\<close> is an \<^verbatim>\<open>int\<close> and \<^verbatim>\<open>range->max\<close> an
  \<^verbatim>\<open>unsigned int\<close>: C converts the \<^verbatim>\<open>int\<close> to \<^verbatim>\<open>unsigned int\<close> and compares unsigned,
  which is \<open><\<close> on words.
\<close>

definition update_range :: "axis_range \<Rightarrow> 32 word \<Rightarrow> axis_range" where
  "update_range rg v =
     (let r1 = (if v > max_val rg then rg\<lparr>max_val := v\<rparr> else rg)
      in if v < min_val r1 then r1\<lparr>min_val := v\<rparr> else r1)"

text \<open>
  Lines 133-183, the \<^verbatim>\<open>for (;;)\<close> loop. When no wake-up is left, \<^verbatim>\<open>poll\<close> blocks for
  ever and the run does not return: \<open>None\<close>.
\<close>

fun detect_loop :: "detect_env \<Rightarrow> axis_range list \<Rightarrow> wake list \<Rightarrow> detect_out option" where
  "detect_loop env tbl [] = None"
| "detect_loop env tbl (PollFailed # ws) =
     Some \<lparr>ret = Inl PollError, ranges = tbl, map_file = Some [], unread = ws\<rparr>"
| "detect_loop env tbl (Revents dev_in sig_in r event # ws) =
     (if sig_in then
        (case write_ranges (fprintf_ok env) 0 tbl [AXIS_A..AXIS_Z] [] of
           (res, out) \<Rightarrow> Some \<lparr>ret = res, ranges = tbl, map_file = Some out, unread = ws\<rparr>)
      else if dev_in then
        (if r < 0 then
           Some \<lparr>ret = Inl (ReadError r), ranges = tbl, map_file = Some [], unread = ws\<rparr>
         else if r = LIBEVDEV_READ_STATUS_SYNC then detect_loop env tbl ws
         else if uint (ev_type event) \<noteq> EV_ABS \<or> uint (ev_code event) < AXIS_A
                 \<or> uint (ev_code event) > AXIS_Z
         then detect_loop env tbl ws
         else
           (let i = nat (uint (ev_code event) - AXIS_A); rg = tbl ! i in
            if \<not> present rg then
              Some \<lparr>ret = Inl (InternalInconsistency (uint (ev_code event))),
                    ranges = tbl, map_file = Some [], unread = ws\<rparr>
            else detect_loop env (tbl[i := update_range rg (ev_value event)]) ws))
      else Some \<lparr>ret = Inl PollUnknown, ranges = tbl, map_file = Some [], unread = ws\<rparr>)"

text \<open>Lines 91-184.\<close>

definition detect :: "libevdev \<Rightarrow> detect_env \<Rightarrow> wake list \<Rightarrow> detect_out option" where
  "detect dev env ws =
     (let axes_ranges = init_ranges dev [AXIS_A..AXIS_Z] zero_ranges in
      if \<not> fopen_w_ok env then
        Some \<lparr>ret = Inl OpenError, ranges = axes_ranges, map_file = None, unread = ws\<rparr>
      else if \<not> sigprocmask_ok env then
        Some \<lparr>ret = Inl SigprocmaskError, ranges = axes_ranges, map_file = Some [], unread = ws\<rparr>
      else if \<not> signalfd_ok env then
        Some \<lparr>ret = Inl SignalfdError, ranges = axes_ranges, map_file = Some [], unread = ws\<rparr>
      else detect_loop env axes_ranges ws)"

section \<open>Formatted input: fscanf\<close>

text \<open>
  A stream opened for reading: the characters not yet read and the end-of-file
  indicator, which a read attempt at the end of the input sets and \<^verbatim>\<open>feof\<close> tests.
\<close>

record FILE =
  buf :: string
  eof :: bool

definition feof :: "FILE \<Rightarrow> bool" where
  "feof fp = eof fp"

text \<open>\<^verbatim>\<open>isspace\<close> and \<^verbatim>\<open>isdigit\<close> in the C locale.\<close>

definition isspace :: "char \<Rightarrow> bool" where
  "isspace c = (c = CHR '' '' \<or> (9 \<le> (of_char c :: nat) \<and> (of_char c :: nat) \<le> 13))"

definition isdigit :: "char \<Rightarrow> bool" where
  "isdigit c = (48 \<le> (of_char c :: nat) \<and> (of_char c :: nat) \<le> 57)"

definition digit_val :: "char \<Rightarrow> nat" where
  "digit_val c = of_char c - 48"

fun dec_val :: "nat \<Rightarrow> string \<Rightarrow> nat" where
  "dec_val acc [] = acc"
| "dec_val acc (c # cs) = dec_val (10 * acc + digit_val c) cs"

text \<open>
  The directives of a format (C11 7.21.6.2): white space, an ordinary character,
  \<^verbatim>\<open>%d\<close> or \<^verbatim>\<open>%u\<close>. No other conversion occurs in the program; the translation of a
  format stops at one.
\<close>

datatype directive = Space | Ordinary char | Conv_d | Conv_u

fun directives :: "string \<Rightarrow> directive list" where
  "directives [] = []"
| "directives (c # fmt) =
     (if isspace c then Space # directives fmt
      else if c = CHR ''%'' then
        (case fmt of
           [] \<Rightarrow> []
         | k # fmt' \<Rightarrow>
             (if k = CHR ''d'' then Conv_d # directives fmt'
              else if k = CHR ''u'' then Conv_u # directives fmt'
              else []))
      else Ordinary c # directives fmt)"

text \<open>Why a directive fails.\<close>

datatype failure = MatchingFailure | InputFailure

text \<open>
  A white-space directive reads up to the first character that is not white space,
  which stays unread, or to the end of the input; it never fails.
\<close>

definition skip_space :: "FILE \<Rightarrow> FILE" where
  "skip_space fp =
     (let rest = dropWhile isspace (buf fp) in \<lparr>buf = rest, eof = eof fp \<or> rest = []\<rparr>)"

text \<open>
  An ordinary character must be the next one of the input; a different character stays
  unread (matching failure), the end of the input is an input failure.
\<close>

definition match_char :: "char \<Rightarrow> FILE \<Rightarrow> failure + FILE" where
  "match_char c fp =
     (case buf fp of
        [] \<Rightarrow> Inl InputFailure
      | x # xs \<Rightarrow> if x = c then Inr (fp\<lparr>buf := xs\<rparr>) else Inl MatchingFailure)"

text \<open>
  \<^verbatim>\<open>%d\<close> and \<^verbatim>\<open>%u\<close> skip white space and read the longest optionally signed run of
  decimal digits. The result is the number read and the stream after the item, or the
  failure and the stream it leaves behind.
\<close>

definition read_number :: "FILE \<Rightarrow> (failure \<times> FILE) + (int \<times> FILE)" where
  "read_number fp =
     (let fp1 = skip_space fp in
      case buf fp1 of
        [] \<Rightarrow> Inl (InputFailure, fp1)
      | x # xs \<Rightarrow>
          (let signed = (x = CHR ''-'' \<or> x = CHR ''+'');
               s = (if signed then xs else x # xs);
               ds = takeWhile isdigit s;
               rest = dropWhile isdigit s;
               fp2 = \<lparr>buf = rest, eof = eof fp1 \<or> rest = []\<rparr>
           in if ds = [] then Inl (MatchingFailure, fp2)
              else Inr (if x = CHR ''-'' then - int (dec_val 0 ds) else int (dec_val 0 ds), fp2)))"

text \<open>
  C leaves undefined what is stored when the number does not fit the object. The C
  library the program runs on (glibc on 64-bit Linux) converts the item with
  \<^verbatim>\<open>strtol\<close> for \<^verbatim>\<open>%d\<close> and \<^verbatim>\<open>strtoul\<close> for \<^verbatim>\<open>%u\<close>, to a 64-bit \<^verbatim>\<open>long\<close>, and
  stores the low 32 bits of the result. \<^verbatim>\<open>strtol\<close> saturates at \<^verbatim>\<open>LONG_MIN\<close> and
  \<^verbatim>\<open>LONG_MAX\<close>; \<^verbatim>\<open>strtoul\<close> gives \<^verbatim>\<open>ULONG_MAX\<close> when the digits alone exceed it and
  otherwise negates a number with a minus sign modulo \<open>2^64\<close>.
\<close>

definition strtol_value :: "int \<Rightarrow> int" where
  "strtol_value n =
     (if n < - (2 ^ 63) then - (2 ^ 63) else if 2 ^ 63 \<le> n then 2 ^ 63 - 1 else n)"

definition strtoul_value :: "int \<Rightarrow> int" where
  "strtoul_value n = (if 2 ^ 64 \<le> \<bar>n\<bar> then 2 ^ 64 - 1 else n mod 2 ^ 64)"

definition convert :: "directive \<Rightarrow> FILE \<Rightarrow> (failure \<times> FILE) + (32 word \<times> FILE)" where
  "convert d fp =
     (case read_number fp of
        Inl e \<Rightarrow> Inl e
      | Inr (n, fp') \<Rightarrow>
          Inr (word_of_int (if d = Conv_d then strtol_value n else strtoul_value n), fp'))"

text \<open>
  What one call of \<^verbatim>\<open>fscanf\<close> leaves: the failure that stopped it (\<open>None\<close> when every
  directive was executed), the values assigned to the pointer arguments, in order, and
  the stream.
\<close>

record scanned =
  stopped :: "failure option"
  assigned :: "32 word list"
  stream :: FILE

fun scan :: "directive list \<Rightarrow> 32 word list \<Rightarrow> FILE \<Rightarrow> scanned" where
  "scan [] vals fp = \<lparr>stopped = None, assigned = vals, stream = fp\<rparr>"
| "scan (Space # ds) vals fp = scan ds vals (skip_space fp)"
| "scan (Ordinary c # ds) vals fp =
     (case match_char c fp of
        Inl e \<Rightarrow> \<lparr>stopped = Some e, assigned = vals,
                  stream = (if e = InputFailure then fp\<lparr>eof := True\<rparr> else fp)\<rparr>
      | Inr fp' \<Rightarrow> scan ds vals fp')"
| "scan (d # ds) vals fp =
     (case convert d fp of
        Inl (e, fp') \<Rightarrow> \<lparr>stopped = Some e, assigned = vals, stream = fp'\<rparr>
      | Inr (v, fp') \<Rightarrow> scan ds (vals @ [v]) fp')"

definition fscanf :: "FILE \<Rightarrow> string \<Rightarrow> scanned" where
  "fscanf fp fmt = scan (directives fmt) [] fp"

text \<open>
  The value \<^verbatim>\<open>fscanf\<close> returns: \<^verbatim>\<open>EOF\<close>, which is \<open>-1\<close>, when an input failure
  occurs before the first conversion has completed, otherwise the number of values
  assigned.
\<close>

definition returned :: "scanned \<Rightarrow> int" where
  "returned s =
     (if stopped s = Some InputFailure \<and> assigned s = [] then - 1 else int (length (assigned s)))"

section \<open>load\<close>

text \<open>
  \<^verbatim>\<open>int axis; unsigned int min, max;\<close> are declared in the body of the loop without
  an initialiser: at the start of every iteration their values are indeterminate. The
  model takes these values as a parameter, one triple per iteration.
\<close>

record locals =
  axis_var :: "32 word"
  min_var :: "32 word"
  max_var :: "32 word"

definition store :: "32 word list \<Rightarrow> locals \<Rightarrow> locals" where
  "store vals l =
     \<lparr>axis_var = (if 0 < length vals then vals ! 0 else axis_var l),
      min_var = (if 1 < length vals then vals ! 1 else min_var l),
      max_var = (if 2 < length vals then vals ! 2 else max_var l)\<rparr>"

text \<open>
  Lines 195-206, the \<^verbatim>\<open>while (!feof(fp))\<close> loop; \<open>reports\<close> counts the messages
  "reading line from ..." written to stderr. The first argument bounds the number of
  iterations: \<open>None\<close> says that the loop has not ended within the bound. A write to
  \<^verbatim>\<open>axes_ranges[axis - AXIS_A]\<close> outside the array ends the run with an error.
\<close>

fun read_ranges ::
  "nat \<Rightarrow> (nat \<Rightarrow> locals) \<Rightarrow> nat \<Rightarrow> FILE \<Rightarrow> axis_range list \<Rightarrow> nat
     \<Rightarrow> (error + axis_range list \<times> nat) option" where
  "read_ranges 0 indet k fp tbl reports = None"
| "read_ranges (Suc fuel) indet k fp tbl reports =
     (if feof fp then Some (Inr (tbl, reports))
      else
        (let s = fscanf fp MAP_FILE_LINE_FORMAT;
             reports' = (if returned s < 0 then Suc reports else reports);
             l = store (assigned s) (indet k);
             i = sint (axis_var l) - AXIS_A
         in if i < 0 \<or> int AXIS_COUNT \<le> i then Some (Inl (IndexOutOfBounds i))
            else read_ranges fuel indet (Suc k) (stream s)
                   (tbl[nat i := \<lparr>present = True, min_val = min_var l, max_val = max_var l\<rparr>])
                   reports'))"

text \<open>Lines 208-223; the device is changed in place, so it is returned on failure too.\<close>

fun apply_ranges :: "axis_range list \<Rightarrow> int list \<Rightarrow> libevdev \<Rightarrow> (error + unit) \<times> libevdev" where
  "apply_ranges tbl [] dev = (Inr (), dev)"
| "apply_ranges tbl (axis # rest) dev =
     (let rg = tbl ! nat (axis - AXIS_A) in
      if \<not> present rg then apply_ranges tbl rest dev
      else if \<not> libevdev_has_event_code dev EV_ABS axis then (Inl (MismatchError axis), dev)
      else apply_ranges tbl rest
             (libevdev_set_abs_maximum
                (libevdev_set_abs_minimum dev axis (min_val rg)) axis (max_val rg)))"

text \<open>
  Lines 186-224. The map file is \<open>None\<close> when \<^verbatim>\<open>fopen(map_file, "r")\<close> fails, and
  its content otherwise.
\<close>

record load_out =
  result :: "error + unit"
  device :: libevdev
  parsed :: "axis_range list"
  read_reports :: nat

definition load ::
  "nat \<Rightarrow> (nat \<Rightarrow> locals) \<Rightarrow> libevdev \<Rightarrow> string option \<Rightarrow> load_out option" where
  "load fuel indet dev file =
     (case file of
        None \<Rightarrow>
          Some \<lparr>result = Inl OpenError, device = dev, parsed = zero_ranges, read_reports = 0\<rparr>
      | Some content \<Rightarrow>
          (case read_ranges fuel indet 0 \<lparr>buf = content, eof = False\<rparr> zero_ranges 0 of
             None \<Rightarrow> None
           | Some (Inl e) \<Rightarrow>
               Some \<lparr>result = Inl e, device = dev, parsed = zero_ranges, read_reports = 0\<rparr>
           | Some (Inr (tbl, n)) \<Rightarrow>
               (case apply_ranges tbl [AXIS_A..AXIS_Z] dev of
                  (r, dev') \<Rightarrow>
                    Some \<lparr>result = r, device = dev', parsed = tbl, read_reports = n\<rparr>)))"

section \<open>Concrete devices and runs\<close>

text \<open>
  A wake-up at which only the device is readable and \<^verbatim>\<open>libevdev_next_event\<close> returns
  \<^verbatim>\<open>LIBEVDEV_READ_STATUS_SUCCESS\<close> (0) with an \<open>EV_ABS\<close> event of axis \<open>a\<close> and value
  \<open>v\<close>.
\<close>

definition axis_sample :: "int \<Rightarrow> 32 word \<Rightarrow> wake" where
  "axis_sample a v =
     Revents True False 0
       \<lparr>ev_type = word_of_int EV_ABS, ev_code = word_of_int a, ev_value = v\<rparr>"

text \<open>A wake-up at which the signal descriptor is readable and the device is not.\<close>

definition cancel :: wake where
  "cancel = Revents False True 0 \<lparr>ev_type = 0, ev_code = 0, ev_value = 0\<rparr>"

text \<open>A stick with the two axes \<open>ABS_X\<close> and \<open>ABS_Y\<close>, both advertising the range 0..0.\<close>

definition stick :: libevdev where
  "stick =
     \<lparr>has_event_code = (\<lambda>t c. t = 3 \<and> (c = 0 \<or> c = 1)),
      abs_minimum = (\<lambda>c. 0), abs_maximum = (\<lambda>c. 0), abs_calls = []\<rparr>"

text \<open>A device with \<open>ABS_X\<close> only.\<close>

definition slider :: libevdev where
  "slider =
     \<lparr>has_event_code = (\<lambda>t c. t = 3 \<and> c = 0),
      abs_minimum = (\<lambda>c. 0), abs_maximum = (\<lambda>c. 0), abs_calls = []\<rparr>"

text \<open>A pad with \<open>ABS_X\<close> only, advertising the range 5..9.\<close>

definition pad :: libevdev where
  "pad =
     \<lparr>has_event_code = (\<lambda>t c. t = 3 \<and> c = 0),
      abs_minimum = (\<lambda>c. 5), abs_maximum = (\<lambda>c. 9), abs_calls = []\<rparr>"

text \<open>An environment in which no call fails.\<close>

definition fine :: detect_env where
  "fine = \<lparr>fopen_w_ok = True, sigprocmask_ok = True, signalfd_ok = True,
            fprintf_ok = (\<lambda>k. True)\<rparr>"

text \<open>Indeterminate locals that happen to be zero in every iteration.\<close>

definition zeroed :: "nat \<Rightarrow> locals" where
  "zeroed k = \<lparr>axis_var = 0, min_var = 0, max_var = 0\<rparr>"

section \<open>Facts about the constants and the decimal output\<close>

lemmas axis_consts = AXIS_A_def AXIS_Z_def ABS_X_def ABS_RZ_def AXIS_COUNT_def EV_ABS_def
  LIBEVDEV_READ_STATUS_SYNC_def USHRT_MAX_def

lemma AXIS_COUNT_6: "AXIS_COUNT = 6"
  by (simp add: axis_consts)

lemma axes_list: "[AXIS_A..AXIS_Z] = [0, 1, 2, 3, 4, 5]"
  by (simp add: axis_consts upto_rec1)

lemma axis_index:
  assumes "AXIS_A \<le> a" "a \<le> AXIS_Z"
  shows "nat (a - AXIS_A) < AXIS_COUNT"
  using assms by (simp add: AXIS_COUNT_def)

lemma axis_index_inj:
  assumes "AXIS_A \<le> a" "AXIS_A \<le> b" "nat (a - AXIS_A) = nat (b - AXIS_A)"
  shows "a = b"
  using assms by simp

lemma axis_bounds:
  assumes "AXIS_A \<le> a" "a \<le> AXIS_Z"
  shows "0 \<le> a" "a \<le> 5"
  using assms by (simp_all add: AXIS_A_def AXIS_Z_def ABS_X_def ABS_RZ_def)

lemma uint_axis_code:
  assumes "AXIS_A \<le> a" "a \<le> AXIS_Z"
  shows "uint (word_of_int a :: 16 word) = a"
  using axis_bounds [OF assms] by (simp add: uint_word_of_int)

lemma uint_EV_ABS: "uint (word_of_int EV_ABS :: 16 word) = EV_ABS"
  by (simp add: EV_ABS_def)

lemma sprintf_line:
  "sprintf MAP_FILE_LINE_FORMAT [a, mn, mx] =
     ''axis '' @ print_d a @ '': min = '' @ print_u mn @ '', max = '' @ print_u mx @ ''\<newline>''"
  by (simp add: MAP_FILE_LINE_FORMAT_def)

lemma print_d_axis:
  assumes "AXIS_A \<le> a" "a \<le> AXIS_Z"
  shows "print_d (word_of_int a) = dec (nat a)"
proof -
  have "sint (word_of_int a :: 32 word) = a"
    using axis_bounds [OF assms] by (simp add: sint_sbintrunc' signed_take_bit_int_eq_self)
  then show ?thesis using axis_bounds [OF assms] by (simp add: print_d_def)
qed

lemmas dec_eval = dec.simps digit_char_def char_of_eq_iff

lemma dec_0: "dec 0 = ''0''"
  by (simp add: dec_eval)

lemma dec_65535: "dec 65535 = ''65535''"
  by (simp add: dec_eval)

lemma print_u_0: "print_u 0 = ''0''"
  by (simp add: print_u_def dec_0)

lemma print_u_65535: "print_u 65535 = ''65535''"
  by (simp add: print_u_def dec_65535)

section \<open>detect: the initial table\<close>

lemma init_ranges_length [simp]: "length (init_ranges dev as tbl) = length tbl"
  by (induction as arbitrary: tbl) auto

lemma init_ranges_nth:
  "i < length tbl \<Longrightarrow>
   init_ranges dev as tbl ! i =
     (if \<exists>a\<in>set as. nat (a - AXIS_A) = i \<and> libevdev_has_event_code dev EV_ABS a
      then \<lparr>present = True, min_val = USHRT_MAX, max_val = 0\<rparr> else tbl ! i)"
proof (induction as arbitrary: tbl)
  case Nil
  then show ?case by simp
next
  case (Cons a as)
  then show ?case by (auto simp: nth_list_update)
qed

lemma init_axis:
  assumes "AXIS_A \<le> a" "a \<le> AXIS_Z"
  shows "init_ranges dev [AXIS_A..AXIS_Z] zero_ranges ! nat (a - AXIS_A) =
     (if libevdev_has_event_code dev EV_ABS a
      then \<lparr>present = True, min_val = USHRT_MAX, max_val = 0\<rparr> else zero_range)"
proof -
  have i: "nat (a - AXIS_A) < length zero_ranges"
    using assms by (simp add: zero_ranges_def AXIS_COUNT_def)
  have eq: "b = a" if "b \<in> set [AXIS_A..AXIS_Z]" "nat (b - AXIS_A) = nat (a - AXIS_A)" for b
    using that assms by auto
  have a: "a \<in> set [AXIS_A..AXIS_Z]"
    using assms by simp
  have "(\<exists>b\<in>set [AXIS_A..AXIS_Z]. nat (b - AXIS_A) = nat (a - AXIS_A) \<and> libevdev_has_event_code dev EV_ABS b)
      = libevdev_has_event_code dev EV_ABS a"
    using eq a by blast
  then show ?thesis using i by (simp add: init_ranges_nth zero_ranges_def del: set_upto)
qed

text \<open>
  Claim C1, as the code has it: the table has \<open>AXIS_COUNT = ABS_RZ - ABS_X + 1 = 6\<close>
  entries, for the axis codes 0 to 5, not 12. The first loop of \<open>detect\<close> asks
  \<open>libevdev_has_event_code\<close> for each of these six codes and leaves a table of six
  entries in which the entry of an axis the device has is present with \<open>min = 65535\<close>
  and \<open>max = 0\<close>, and the entry of every other axis is still all zero.
\<close>

theorem detect_initialises_six_axes:
  "AXIS_COUNT = 6 \<and> [AXIS_A..AXIS_Z] = [0, 1, 2, 3, 4, 5]
   \<and> length (init_ranges dev [AXIS_A..AXIS_Z] zero_ranges) = 6
   \<and> (\<forall>a\<in>{0..5}. init_ranges dev [AXIS_A..AXIS_Z] zero_ranges ! nat a =
        (if libevdev_has_event_code dev EV_ABS a
         then \<lparr>present = True, min_val = 65535, max_val = 0\<rparr>
         else \<lparr>present = False, min_val = 0, max_val = 0\<rparr>))"
proof -
  have "init_ranges dev [AXIS_A..AXIS_Z] zero_ranges ! nat a =
        (if libevdev_has_event_code dev EV_ABS a
         then \<lparr>present = True, min_val = 65535, max_val = 0\<rparr>
         else \<lparr>present = False, min_val = 0, max_val = 0\<rparr>)" if "a \<in> {0..5}" for a
  proof -
    have "AXIS_A \<le> a" "a \<le> AXIS_Z" "a - AXIS_A = a"
      using that by (simp_all add: AXIS_A_def AXIS_Z_def ABS_X_def ABS_RZ_def)
    then show ?thesis using init_axis [of a dev] by (simp add: USHRT_MAX_def zero_range_def)
  qed
  then show ?thesis
    by (simp add: AXIS_COUNT_6 axes_list zero_ranges_def del: init_ranges.simps)
qed

text \<open>Claim C1 at the stick with the axes 0 and 1: entry 1 is present, entry 2 is not.\<close>

theorem detect_initialises_six_axes_witness:
  "init_ranges stick [AXIS_A..AXIS_Z] zero_ranges ! 1 = \<lparr>present = True, min_val = 65535, max_val = 0\<rparr>
   \<and> init_ranges stick [AXIS_A..AXIS_Z] zero_ranges ! 2 = \<lparr>present = False, min_val = 0, max_val = 0\<rparr>
   \<and> length (init_ranges stick [AXIS_A..AXIS_Z] zero_ranges) = 6"
proof -
  have all: "\<forall>a\<in>{0..5}. init_ranges stick [AXIS_A..AXIS_Z] zero_ranges ! nat a =
        (if libevdev_has_event_code stick EV_ABS a
         then \<lparr>present = True, min_val = 65535, max_val = 0\<rparr>
         else \<lparr>present = False, min_val = 0, max_val = 0\<rparr>)"
    and len: "length (init_ranges stick [AXIS_A..AXIS_Z] zero_ranges) = 6"
    using detect_initialises_six_axes [of stick] by blast+
  have "(1::int) \<in> {0..5}" "(2::int) \<in> {0..5}" by simp_all
  from all [rule_format, OF this(1)] all [rule_format, OF this(2)] len
  show ?thesis
    by (simp add: libevdev_has_event_code_def stick_def EV_ABS_def)
qed

text \<open>
  Claim C1 as stated fails: the number of table entries is not 12, and the last axis
  is not 11 codes after the first.
\<close>

theorem axis_count_not_twelve: "AXIS_COUNT \<noteq> 12 \<and> length zero_ranges \<noteq> 12 \<and> AXIS_Z - AXIS_A \<noteq> 11"
  by (simp add: zero_ranges_def axis_consts)

section \<open>detect: cancellation and the written file\<close>

lemma write_ranges_ok:
  assumes "\<forall>k. ok k"
  shows "write_ranges ok k tbl as out =
     (Inr (), out @ concat (map (\<lambda>a. sprintf MAP_FILE_LINE_FORMAT
                 [word_of_int a, min_val (tbl ! nat (a - AXIS_A)), max_val (tbl ! nat (a - AXIS_A))])
               (filter (\<lambda>a. present (tbl ! nat (a - AXIS_A))) as)))"
  using assms by (induction as arbitrary: k out) (simp_all add: Let_def)

text \<open>
  Claim C5: when the signal descriptor is readable at the first wake-up (whether or not
  the device is readable too), and opening the file, setting up the signal descriptor
  and the calls of \<open>fprintf\<close> do not fail, \<open>detect\<close> returns \<^verbatim>\<open>true\<close> and the map
  file holds exactly one line \<open>axis a: min = 65535, max = 0\<close> for every axis the device
  has, in ascending order of the axis code, and nothing else.
\<close>

theorem detect_cancel_before_events:
  assumes "fopen_w_ok env" "sigprocmask_ok env" "signalfd_ok env" "\<forall>k. fprintf_ok env k"
  shows "detect dev env (Revents d True r e # ws) =
    Some \<lparr>ret = Inr (),
          ranges = init_ranges dev [AXIS_A..AXIS_Z] zero_ranges,
          map_file = Some (concat (map (\<lambda>a. ''axis '' @ dec (nat a) @ '': min = 65535, max = 0\<newline>'')
                       (filter (libevdev_has_event_code dev EV_ABS) [AXIS_A..AXIS_Z]))),
          unread = ws\<rparr>"
proof -
  let ?tbl = "init_ranges dev [AXIS_A..AXIS_Z] zero_ranges"
  have f: "filter (\<lambda>a. present (?tbl ! nat (a - AXIS_A))) [AXIS_A..AXIS_Z]
         = filter (libevdev_has_event_code dev EV_ABS) [AXIS_A..AXIS_Z]"
    by (rule filter_cong) (simp_all add: init_axis zero_range_def)
  have m: "map (\<lambda>a. sprintf MAP_FILE_LINE_FORMAT
                 [word_of_int a, min_val (?tbl ! nat (a - AXIS_A)), max_val (?tbl ! nat (a - AXIS_A))])
             (filter (libevdev_has_event_code dev EV_ABS) [AXIS_A..AXIS_Z])
         = map (\<lambda>a. ''axis '' @ dec (nat a) @ '': min = 65535, max = 0\<newline>'')
             (filter (libevdev_has_event_code dev EV_ABS) [AXIS_A..AXIS_Z])"
  proof (rule map_cong)
    fix a assume "a \<in> set (filter (libevdev_has_event_code dev EV_ABS) [AXIS_A..AXIS_Z])"
    then have a: "AXIS_A \<le> a" "a \<le> AXIS_Z" "libevdev_has_event_code dev EV_ABS a"
      by simp_all
    show "sprintf MAP_FILE_LINE_FORMAT
                 [word_of_int a, min_val (?tbl ! nat (a - AXIS_A)), max_val (?tbl ! nat (a - AXIS_A))]
        = ''axis '' @ dec (nat a) @ '': min = 65535, max = 0\<newline>''"
      using a by (simp add: init_axis sprintf_line print_d_axis USHRT_MAX_def print_u_0 print_u_65535)
  qed simp
  show ?thesis
    using assms by (simp add: detect_def write_ranges_ok f m del: write_ranges.simps)
qed

text \<open>Claim C5 at the stick with the axes 0 and 1.\<close>

theorem detect_cancel_before_events_witness:
  "fopen_w_ok fine \<and> sigprocmask_ok fine \<and> signalfd_ok fine \<and> (\<forall>k. fprintf_ok fine k)
   \<and> ret (the (detect stick fine [cancel])) = Inr ()
   \<and> map_file (the (detect stick fine [cancel])) =
       Some ''axis 0: min = 65535, max = 0\<newline>axis 1: min = 65535, max = 0\<newline>''"
proof -
  have h: "fopen_w_ok fine" "sigprocmask_ok fine" "signalfd_ok fine" "\<forall>k. fprintf_ok fine k"
    by (simp_all add: fine_def)
  have d: "dec 0 = ''0''" "dec (Suc 0) = ''1''"
    by (simp_all add: dec_eval)
  show ?thesis
    using h detect_cancel_before_events [OF h, of stick False 0 "\<lparr>ev_type = 0, ev_code = 0, ev_value = 0\<rparr>" "[]"]
    by (simp add: cancel_def axes_list libevdev_has_event_code_def stick_def EV_ABS_def d)
qed

section \<open>detect: the running minimum and maximum\<close>

lemma update_range_minmax:
  "update_range r v = r\<lparr>max_val := max (max_val r) v, min_val := min (min_val r) v\<rparr>"
  by (simp add: update_range_def Let_def max_def min_def not_less)

lemma fold_update_range:
  "fold (\<lambda>v r. update_range r v) vs r =
     r\<lparr>max_val := fold max vs (max_val r), min_val := fold min vs (min_val r)\<rparr>"
  by (induction vs arbitrary: r) (simp_all add: update_range_minmax max.commute min.commute)

lemma detect_loop_sample:
  assumes "AXIS_A \<le> a" "a \<le> AXIS_Z" "present (tbl ! nat (a - AXIS_A))"
  shows "detect_loop env tbl (axis_sample a v # ws) =
     detect_loop env (tbl[nat (a - AXIS_A) := update_range (tbl ! nat (a - AXIS_A)) v]) ws"
  using assms
  by (simp add: axis_sample_def uint_axis_code uint_EV_ABS LIBEVDEV_READ_STATUS_SYNC_def Let_def)

lemma detect_loop_samples:
  assumes "AXIS_A \<le> a" "a \<le> AXIS_Z" "nat (a - AXIS_A) < length tbl"
    "present (tbl ! nat (a - AXIS_A))"
  shows "detect_loop env tbl (map (axis_sample a) vs @ ws) =
     detect_loop env
       (tbl[nat (a - AXIS_A) := fold (\<lambda>v r. update_range r v) vs (tbl ! nat (a - AXIS_A))]) ws"
  using assms
proof (induction vs arbitrary: tbl)
  case Nil
  then show ?case by simp
next
  case (Cons v vs)
  let ?i = "nat (a - AXIS_A)"
  let ?tbl = "tbl[?i := update_range (tbl ! ?i) v]"
  have p: "present (?tbl ! ?i)"
    using Cons.prems by (simp add: update_range_minmax)
  have "detect_loop env tbl (map (axis_sample a) (v # vs) @ ws)
      = detect_loop env ?tbl (map (axis_sample a) vs @ ws)"
    using Cons.prems by (simp add: detect_loop_sample del: detect_loop.simps)
  also have "\<dots> = detect_loop env (?tbl[?i := fold (\<lambda>v r. update_range r v) vs (?tbl ! ?i)]) ws"
    using Cons.prems p by (intro Cons.IH) simp_all
  also have "?tbl[?i := fold (\<lambda>v r. update_range r v) vs (?tbl ! ?i)]
      = tbl[?i := fold (\<lambda>v r. update_range r v) (v # vs) (tbl ! ?i)]"
    using Cons.prems(3) by simp
  finally show ?case .
qed

lemma fold_max_Max: "fold max vs (m::32 word) = Max (insert m (set vs))"
  by (metis Max.set_eq_fold list.simps(15))

lemma fold_min_Min: "fold min vs (m::32 word) = Min (insert m (set vs))"
  by (metis Min.set_eq_fold list.simps(15))

lemma detect_samples_then_cancel:
  assumes "fopen_w_ok env" "sigprocmask_ok env" "signalfd_ok env" "\<forall>k. fprintf_ok env k"
    and "AXIS_A \<le> a" "a \<le> AXIS_Z" "libevdev_has_event_code dev EV_ABS a"
  shows "\<exists>s. detect dev env (map (axis_sample a) vs @ Revents d True r e # ws) =
     Some \<lparr>ret = Inr (),
           ranges = (init_ranges dev [AXIS_A..AXIS_Z] zero_ranges)
             [nat (a - AXIS_A) := fold (\<lambda>v r. update_range r v) vs
                 \<lparr>present = True, min_val = USHRT_MAX, max_val = 0\<rparr>],
           map_file = Some s, unread = ws\<rparr>"
proof -
  let ?i = "nat (a - AXIS_A)"
  let ?tbl = "init_ranges dev [AXIS_A..AXIS_Z] zero_ranges"
  let ?r = "fold (\<lambda>v r. update_range r v) vs (?tbl ! ?i)"
  have len: "?i < length ?tbl"
    using assms(5,6) by (simp add: zero_ranges_def axis_index)
  have ini: "?tbl ! ?i = \<lparr>present = True, min_val = USHRT_MAX, max_val = 0\<rparr>"
    using assms(5-7) by (simp add: init_axis)
  have loop: "detect_loop env ?tbl (map (axis_sample a) vs @ Revents d True r e # ws)
      = detect_loop env (?tbl[?i := ?r]) (Revents d True r e # ws)"
    using assms(5,6) len ini by (intro detect_loop_samples) simp_all
  have "\<exists>s. write_ranges (fprintf_ok env) 0 (?tbl[?i := ?r]) [AXIS_A..AXIS_Z] [] = (Inr (), s)"
    using assms(4) by (simp add: write_ranges_ok del: write_ranges.simps)
  then obtain s where w: "write_ranges (fprintf_ok env) 0 (?tbl[?i := ?r]) [AXIS_A..AXIS_Z] [] = (Inr (), s)"
    by blast
  have "detect dev env (map (axis_sample a) vs @ Revents d True r e # ws)
      = Some \<lparr>ret = Inr (), ranges = ?tbl[?i := ?r], map_file = Some s, unread = ws\<rparr>"
    using assms(1-3) by (simp add: detect_def loop w del: write_ranges.simps)
  then show ?thesis
    unfolding ini by blast
qed

text \<open>
  Claim C6: a run in which the device delivers, for one axis \<open>a\<close> it has, samples whose
  values are any permutation of 300, 50, 900, 500, and is then cancelled, returns
  \<^verbatim>\<open>true\<close> with \<open>min = 50\<close> and \<open>max = 900\<close> recorded for \<open>a\<close>.
\<close>

theorem detect_aggregate_permutation:
  assumes "fopen_w_ok env" "sigprocmask_ok env" "signalfd_ok env" "\<forall>k. fprintf_ok env k"
    and "AXIS_A \<le> a" "a \<le> AXIS_Z" "libevdev_has_event_code dev EV_ABS a"
    and "mset vs = mset [300, 50, 900, 500]"
  shows "\<exists>out. detect dev env (map (axis_sample a) vs @ Revents d True r e # ws) = Some out
           \<and> ret out = Inr () \<and> unread out = ws
           \<and> ranges out ! nat (a - AXIS_A) = \<lparr>present = True, min_val = 50, max_val = 900\<rparr>"
proof -
  let ?i = "nat (a - AXIS_A)"
  have len: "?i < length (init_ranges dev [AXIS_A..AXIS_Z] zero_ranges)"
    using assms(5,6) by (simp add: zero_ranges_def axis_index)
  have "set vs = set [300, 50, 900, 500]"
    using assms(8) by (rule mset_eq_setD)
  then have s: "set vs = {300, 50, 900, 500}"
    by simp
  have r: "fold (\<lambda>v r. update_range r v) vs \<lparr>present = True, min_val = USHRT_MAX, max_val = 0\<rparr>
           = \<lparr>present = True, min_val = 50, max_val = 900\<rparr>"
    by (simp add: fold_update_range fold_max_Max fold_min_Min s USHRT_MAX_def)
  from detect_samples_then_cancel [OF assms(1-7), of vs d r e ws]
  show ?thesis
    unfolding r using len by auto
qed

text \<open>Claim C6 at the stick, axis 0, with the samples in the order 50, 900, 500, 300.\<close>

theorem detect_aggregate_permutation_witness:
  "ret (the (detect stick fine (map (axis_sample 0) [50, 900, 500, 300] @ [cancel]))) = Inr ()
   \<and> ranges (the (detect stick fine (map (axis_sample 0) [50, 900, 500, 300] @ [cancel]))) ! 0
       = \<lparr>present = True, min_val = 50, max_val = 900\<rparr>"
proof -
  have h: "fopen_w_ok fine" "sigprocmask_ok fine" "signalfd_ok fine" "\<forall>k. fprintf_ok fine k"
    by (simp_all add: fine_def)
  have a: "AXIS_A \<le> 0" "0 \<le> AXIS_Z" "libevdev_has_event_code stick EV_ABS 0"
    by (simp_all add: axis_consts libevdev_has_event_code_def stick_def)
  have m: "mset [50, 900, 500, 300 :: 32 word] = mset [300, 50, 900, 500]"
    by (simp add: add_mset_commute)
  from detect_aggregate_permutation [OF h a m, of False 0 "\<lparr>ev_type = 0, ev_code = 0, ev_value = 0\<rparr>" "[]"]
  obtain out where "detect stick fine (map (axis_sample 0) [50, 900, 500, 300] @ [cancel]) = Some out"
    "ret out = Inr ()" "ranges out ! nat (0 - AXIS_A) = \<lparr>present = True, min_val = 50, max_val = 900\<rparr>"
    unfolding cancel_def by blast
  then show ?thesis
    by (simp add: AXIS_A_def ABS_X_def)
qed

lemma uint_negative:
  fixes v :: "32 word"
  assumes "sint v < 0"
  shows "uint v = sint v mod 2 ^ 32" "2 ^ 31 \<le> uint v"
proof -
  show u: "uint v = sint v mod 2 ^ 32"
    by (simp add: uint_sint take_bit_eq_mod)
  have "- (2 ^ 31) \<le> sint v"
    using sint_ge [of v] by simp
  then have "(sint v + 2 ^ 32) mod 2 ^ 32 = sint v + 2 ^ 32"
    using assms by (intro mod_pos_pos_trivial) simp_all
  moreover have "(sint v + 2 ^ 32) mod 2 ^ 32 = sint v mod 2 ^ 32"
    by simp
  ultimately have "sint v mod 2 ^ 32 = sint v + 2 ^ 32"
    by simp
  then show "2 ^ 31 \<le> uint v"
    using u \<open>- (2 ^ 31) \<le> sint v\<close> by simp
qed

lemma uint_nonnegative:
  fixes v :: "32 word"
  assumes "0 \<le> sint v"
  shows "uint v < 2 ^ 31"
proof -
  have "sint v < 2 ^ 31"
    using sint_lt [of v] by simp
  then have "sint v mod 2 ^ 32 = sint v"
    using assms by simp
  then show ?thesis
    using \<open>sint v < 2 ^ 31\<close> by (simp add: uint_sint take_bit_eq_mod)
qed

lemma fold_min_le: "fold min vs (m::32 word) \<le> m"
  by (simp add: fold_min_Min)

lemma fold_max_bound:
  fixes m :: "32 word"
  assumes "uint m < 2 ^ 31" "\<forall>w\<in>set vs. 0 \<le> sint w"
  shows "uint (fold max vs m) < 2 ^ 31"
proof -
  have "Max (insert m (set vs)) \<in> insert m (set vs)"
    by (rule Max_in) simp_all
  then show ?thesis
    using assms uint_nonnegative by (auto simp: fold_max_Max)
qed

text \<open>
  Claim C9, as the code has it. \<open>r\<close> is the entry of an axis after any samples \<open>vs\<close>,
  and \<open>v\<close> a sample with a negative value. The comparison reads \<open>v\<close> as the unsigned
  number \<open>v mod 2^32\<close>, which is at least \<open>2^31\<close>: \<open>min\<close> is left as it is, and \<open>max\<close>
  becomes the larger of its old value and \<open>v mod 2^32\<close>, so it is at least \<open>2^31\<close>; it
  is \<open>v mod 2^32\<close> itself when no earlier sample was negative, but stays what it was
  when an earlier negative sample had already raised it further. The recorded
  \<open>min\<close> and \<open>max\<close> are the true minimum and maximum of the samples only if no sample is
  negative.
\<close>

theorem update_range_negative:
  assumes "r = fold (\<lambda>v r. update_range r v) vs \<lparr>present = True, min_val = USHRT_MAX, max_val = 0\<rparr>"
    and "sint v < 0"
  shows "uint v = sint v mod 2 ^ 32 \<and> 2 ^ 31 \<le> uint v
       \<and> min_val (update_range r v) = min_val r
       \<and> max_val (update_range r v) = max (max_val r) v
       \<and> 2 ^ 31 \<le> uint (max_val (update_range r v))
       \<and> ((\<forall>w\<in>set vs. 0 \<le> sint w) \<longrightarrow> max_val (update_range r v) = v)
       \<and> (uint (min_val r) = Min (sint ` set vs) \<and> uint (max_val r) = Max (sint ` set vs)
          \<longrightarrow> (\<forall>w\<in>set vs. 0 \<le> sint w))"
proof -
  note u = uint_negative [OF assms(2)]
  have mn: "min_val r \<le> USHRT_MAX"
    by (simp add: assms(1) fold_update_range fold_min_le)
  then have "uint (min_val r) \<le> 65535"
    by (simp add: word_le_def USHRT_MAX_def)
  then have "min_val r \<le> v"
    using u(2) by (simp add: word_le_def)
  then have a: "min_val (update_range r v) = min_val r"
    by (simp add: update_range_minmax min_def)
  have b: "max_val (update_range r v) = max (max_val r) v"
    by (simp add: update_range_minmax)
  have "v \<le> max (max_val r) v"
    by simp
  then have c: "2 ^ 31 \<le> uint (max_val (update_range r v))"
    using u(2) unfolding b word_le_def by linarith
  have d: "max_val (update_range r v) = v" if "\<forall>w\<in>set vs. 0 \<le> sint w"
  proof -
    have "uint (max_val r) < 2 ^ 31"
      using that fold_max_bound [of 0 vs] by (simp add: assms(1) fold_update_range)
    then have "max_val r \<le> v"
      using u(2) by (simp add: word_le_def)
    then show ?thesis
      by (simp add: b max_def)
  qed
  have e: "\<forall>w\<in>set vs. 0 \<le> sint w"
    if "uint (min_val r) = Min (sint ` set vs)"
  proof
    fix w assume "w \<in> set vs"
    then have "sint w \<in> sint ` set vs"
      by (rule imageI)
    then have "Min (sint ` set vs) \<le> sint w"
      by (intro Min_le) simp
    moreover have "0 \<le> uint (min_val r)"
      by simp
    ultimately show "0 \<le> sint w"
      using that by linarith
  qed
  show ?thesis
    using u a b c d e by blast
qed

text \<open>Claim C9 at the sample -2 (the word 4294967294) after the one sample 300.\<close>

theorem update_range_negative_witness:
  "sint (4294967294 :: 32 word) < 0
   \<and> min_val (update_range \<lparr>present = True, min_val = 300, max_val = 300\<rparr> 4294967294) = 300
   \<and> max_val (update_range \<lparr>present = True, min_val = 300, max_val = 300\<rparr> 4294967294) = 4294967294
   \<and> uint (4294967294 :: 32 word) = sint (4294967294 :: 32 word) mod 2 ^ 32"
proof -
  have n: "sint (4294967294 :: 32 word) < 0"
    by simp
  have r: "\<lparr>present = True, min_val = 300, max_val = 300\<rparr> =
      fold (\<lambda>v r. update_range r v) [300] \<lparr>present = True, min_val = USHRT_MAX, max_val = 0\<rparr>"
    by (simp add: update_range_def USHRT_MAX_def)
  have p: "\<forall>w\<in>set [300 :: 32 word]. 0 \<le> sint w"
    by simp
  from update_range_negative [OF r n] p n show ?thesis
    by simp
qed

lemma stick_fine:
  "fopen_w_ok fine" "sigprocmask_ok fine" "signalfd_ok fine" "\<forall>k. fprintf_ok fine k"
  "AXIS_A \<le> 0" "0 \<le> AXIS_Z" "libevdev_has_event_code stick EV_ABS 0"
  by (simp_all add: fine_def axis_consts libevdev_has_event_code_def stick_def)

text \<open>
  Claim C9 as stated fails: after the sample -1, the sample -2 does not set \<open>max\<close> to
  \<open>-2 mod 2^32 = 4294967294\<close>; \<open>max\<close> stays at 4294967295.
\<close>

theorem negative_sample_max_not_set:
  "sint (4294967294 :: 32 word) = - 2
   \<and> max_val (ranges (the (detect stick fine
         [axis_sample 0 4294967295, axis_sample 0 4294967294, cancel])) ! 0) = 4294967295
   \<and> word_of_int (- 2 mod 2 ^ 32) = (4294967294 :: 32 word)"
proof -
  let ?tbl = "init_ranges stick [AXIS_A..AXIS_Z] zero_ranges"
  let ?e = "\<lparr>ev_type = 0, ev_code = 0, ev_value = 0\<rparr>"
  have len: "0 < length ?tbl"
    by (simp add: zero_ranges_def AXIS_COUNT_6)
  have f: "fold (\<lambda>v r. update_range r v) [4294967295, 4294967294]
             \<lparr>present = True, min_val = USHRT_MAX, max_val = 0\<rparr>
         = \<lparr>present = True, min_val = 65535, max_val = 4294967295\<rparr>"
    by (simp add: update_range_def USHRT_MAX_def)
  from detect_samples_then_cancel [OF stick_fine, of "[4294967295, 4294967294]" False 0 ?e "[]"]
  obtain s where "detect stick fine [axis_sample 0 4294967295, axis_sample 0 4294967294, cancel] =
     Some \<lparr>ret = Inr (), ranges = ?tbl[0 := \<lparr>present = True, min_val = 65535, max_val = 4294967295\<rparr>],
           map_file = Some s, unread = []\<rparr>"
    unfolding f cancel_def by (auto simp: AXIS_A_def ABS_X_def)
  then show ?thesis
    using len by simp
qed

text \<open>
  Claim C7: in the loop, an \<open>EV_ABS\<close> event that was read successfully, whose code is
  between \<open>AXIS_A\<close> and \<open>AXIS_Z\<close> and whose table entry is not present makes
  \<open>detect\<close> return \<^verbatim>\<open>false\<close> at once: the table is as it was, nothing has been written
  to the map file, and the wake-ups that follow are not consumed.
\<close>

theorem detect_loop_nonpresent_aborts:
  assumes "\<not> sig_in" "dev_in" "0 \<le> r" "r \<noteq> LIBEVDEV_READ_STATUS_SYNC"
    and "uint (ev_type event) = EV_ABS" "AXIS_A \<le> uint (ev_code event)"
        "uint (ev_code event) \<le> AXIS_Z"
    and "\<not> present (tbl ! nat (uint (ev_code event) - AXIS_A))"
  shows "detect_loop env tbl (Revents dev_in sig_in r event # ws) =
     Some \<lparr>ret = Inl (InternalInconsistency (uint (ev_code event))), ranges = tbl,
           map_file = Some [], unread = ws\<rparr>"
  using assms by (simp add: Let_def)

text \<open>Claim C7 at the stick, which has no axis 2, with a sample for axis 2.\<close>

theorem detect_loop_nonpresent_aborts_witness:
  "detect stick fine [axis_sample 2 7, cancel] =
     Some \<lparr>ret = Inl (InternalInconsistency 2),
           ranges = init_ranges stick [AXIS_A..AXIS_Z] zero_ranges,
           map_file = Some [], unread = [cancel]\<rparr>"
proof -
  let ?ev = "\<lparr>ev_type = word_of_int EV_ABS, ev_code = word_of_int 2, ev_value = 7\<rparr>"
  let ?tbl = "init_ranges stick [AXIS_A..AXIS_Z] zero_ranges"
  have c: "uint (ev_code ?ev) = 2" "uint (ev_type ?ev) = EV_ABS"
    by (simp_all add: EV_ABS_def)
  have p: "\<not> present (?tbl ! nat (uint (ev_code ?ev) - AXIS_A))"
    unfolding c using init_axis [of 2 stick]
    by (simp add: axis_consts libevdev_has_event_code_def stick_def zero_range_def)
  have "detect_loop fine ?tbl (Revents True False 0 ?ev # [cancel]) =
     Some \<lparr>ret = Inl (InternalInconsistency (uint (ev_code ?ev))), ranges = ?tbl,
           map_file = Some [], unread = [cancel]\<rparr>"
    by (rule detect_loop_nonpresent_aborts) (use c p in \<open>simp_all add: axis_consts\<close>)
  then show ?thesis
    unfolding c by (simp add: detect_def axis_sample_def fine_def del: detect_loop.simps)
qed

section \<open>load: applying the table to the device\<close>

lemmas scan_eval = fscanf_def MAP_FILE_LINE_FORMAT_def isspace_def isdigit_def digit_val_def
  skip_space_def match_char_def read_number_def convert_def strtol_value_def strtoul_value_def
  returned_def Let_def store_def feof_def

lemma set_abs_has [simp]:
  "has_event_code (libevdev_set_abs_minimum dev c v) = has_event_code dev"
  "has_event_code (libevdev_set_abs_maximum dev c v) = has_event_code dev"
  by (simp_all add: libevdev_set_abs_minimum_def libevdev_set_abs_maximum_def Let_def)

lemma apply_ranges_frame:
  assumes "b \<in> set as \<longrightarrow> \<not> present (tbl ! nat (b - AXIS_A))"
  shows "abs_minimum (snd (apply_ranges tbl as dev)) b = abs_minimum dev b
       \<and> abs_maximum (snd (apply_ranges tbl as dev)) b = abs_maximum dev b
       \<and> (\<exists>new. abs_calls (snd (apply_ranges tbl as dev)) = abs_calls dev @ new
             \<and> (\<forall>v. SetAbsMinimum b v \<notin> set new \<and> SetAbsMaximum b v \<notin> set new))"
  using assms
proof (induction as arbitrary: dev)
  case Nil
  then show ?case by simp
next
  case (Cons a as)
  let ?rg = "tbl ! nat (a - AXIS_A)"
  let ?dev1 = "libevdev_set_abs_maximum (libevdev_set_abs_minimum dev a (min_val ?rg)) a (max_val ?rg)"
  have tl: "b \<in> set as \<longrightarrow> \<not> present (tbl ! nat (b - AXIS_A))"
    using Cons.prems by simp
  show ?case
  proof (cases "present ?rg \<and> libevdev_has_event_code dev EV_ABS a")
    case False
    then show ?thesis
      using Cons.IH [OF tl, of dev] by (auto simp: Let_def)
  next
    case True
    then have ne: "a \<noteq> b"
      using Cons.prems by auto
    have step: "apply_ranges tbl (a # as) dev = apply_ranges tbl as ?dev1"
      using True by (simp add: Let_def)
    have d1: "abs_minimum ?dev1 b = abs_minimum dev b" "abs_maximum ?dev1 b = abs_maximum dev b"
      "abs_calls ?dev1 = abs_calls dev @ [SetAbsMinimum a (min_val ?rg), SetAbsMaximum a (max_val ?rg)]"
      using ne by (simp_all add: libevdev_set_abs_minimum_def libevdev_set_abs_maximum_def Let_def)
    from Cons.IH [OF tl, of ?dev1] obtain new where
      n: "abs_minimum (snd (apply_ranges tbl as ?dev1)) b = abs_minimum ?dev1 b"
         "abs_maximum (snd (apply_ranges tbl as ?dev1)) b = abs_maximum ?dev1 b"
         "abs_calls (snd (apply_ranges tbl as ?dev1)) = abs_calls ?dev1 @ new"
         "\<forall>v. SetAbsMinimum b v \<notin> set new \<and> SetAbsMaximum b v \<notin> set new"
      by blast
    let ?new = "[SetAbsMinimum a (min_val ?rg), SetAbsMaximum a (max_val ?rg)] @ new"
    have "abs_calls (snd (apply_ranges tbl (a # as) dev)) = abs_calls dev @ ?new"
      "\<forall>v. SetAbsMinimum b v \<notin> set ?new \<and> SetAbsMaximum b v \<notin> set ?new"
      using n(3,4) ne unfolding step d1 by simp_all
    then have "\<exists>new. abs_calls (snd (apply_ranges tbl (a # as) dev)) = abs_calls dev @ new
             \<and> (\<forall>v. SetAbsMinimum b v \<notin> set new \<and> SetAbsMaximum b v \<notin> set new)"
      by blast
    then show ?thesis
      using n(1,2) unfolding step d1 by simp
  qed
qed

lemma load_Some_cases:
  assumes "load fuel indet dev file = Some out"
  shows "(device out = dev) \<or>
     (device out = snd (apply_ranges (parsed out) [AXIS_A..AXIS_Z] dev))"
  using assms
  by (auto simp: load_def split: option.splits sum.splits prod.splits)

text \<open>
  The frame of the second loop: whenever \<open>load\<close> returns, an axis whose entry in the
  parsed table is not present (and every axis outside \<open>AXIS_A..AXIS_Z\<close>, which has no
  entry) has the minimum and maximum it had before, and neither setter was called for
  it.
\<close>

theorem load_frame:
  assumes "load fuel indet dev file = Some out"
    and "AXIS_A \<le> a \<and> a \<le> AXIS_Z \<longrightarrow> \<not> present (parsed out ! nat (a - AXIS_A))"
  shows "abs_minimum (device out) a = abs_minimum dev a
       \<and> abs_maximum (device out) a = abs_maximum dev a
       \<and> (\<exists>new. abs_calls (device out) = abs_calls dev @ new
             \<and> (\<forall>v. SetAbsMinimum a v \<notin> set new \<and> SetAbsMaximum a v \<notin> set new))"
proof -
  have "a \<in> set [AXIS_A..AXIS_Z] \<longrightarrow> \<not> present (parsed out ! nat (a - AXIS_A))"
    using assms(2) by simp
  from apply_ranges_frame [OF this, of dev] load_Some_cases [OF assms(1)]
  show ?thesis by auto
qed

lemma load_one_line:
  "\<exists>out. load 2 zeroed stick (Some ''axis 0: min = 1, max = 2\<newline>'') = Some out
     \<and> result out = Inr () \<and> \<not> present (parsed out ! 1) \<and> present (parsed out ! 0)"
  by (simp add: load_def scan_eval axis_consts upto_rec1 numeral_2_eq_2 zero_ranges_def
        numeral_eq_Suc stick_def libevdev_has_event_code_def zero_range_def)

text \<open>
  At the stick and a file with a line for axis 0 only, \<open>load\<close> succeeds and axis 1 is
  untouched.
\<close>

theorem load_frame_witness:
  "result (the (load 2 zeroed stick (Some ''axis 0: min = 1, max = 2\<newline>''))) = Inr ()
   \<and> abs_minimum (device (the (load 2 zeroed stick (Some ''axis 0: min = 1, max = 2\<newline>'')))) 1
       = abs_minimum stick 1
   \<and> abs_maximum (device (the (load 2 zeroed stick (Some ''axis 0: min = 1, max = 2\<newline>'')))) 1
       = abs_maximum stick 1
   \<and> (\<exists>new. abs_calls (device (the (load 2 zeroed stick (Some ''axis 0: min = 1, max = 2\<newline>''))))
              = abs_calls stick @ new
         \<and> (\<forall>v. SetAbsMinimum 1 v \<notin> set new \<and> SetAbsMaximum 1 v \<notin> set new))"
proof -
  obtain out where l: "load 2 zeroed stick (Some ''axis 0: min = 1, max = 2\<newline>'') = Some out"
    and r: "result out = Inr ()" and p: "\<not> present (parsed out ! 1)"
    using load_one_line by blast
  have "AXIS_A \<le> 1 \<and> 1 \<le> AXIS_Z \<longrightarrow> \<not> present (parsed out ! nat (1 - AXIS_A))"
    using p by (simp add: axis_consts)
  from load_frame [OF l this] r show ?thesis
    by (simp add: l)
qed

lemma apply_ranges_mismatch:
  assumes "\<forall>a\<in>set pre. present (tbl ! nat (a - AXIS_A)) \<longrightarrow> libevdev_has_event_code dev EV_ABS a"
    and "present (tbl ! nat (b - AXIS_A))" "\<not> libevdev_has_event_code dev EV_ABS b"
  shows "apply_ranges tbl (pre @ b # post) dev =
           (Inl (MismatchError b), snd (apply_ranges tbl pre dev))"
  using assms
proof (induction pre arbitrary: dev)
  case Nil
  then show ?case by (simp add: Let_def)
next
  case (Cons a pre)
  show ?case
  proof (cases "present (tbl ! nat (a - AXIS_A))")
    case False
    then show ?thesis using Cons.IH [of dev] Cons.prems by (simp add: Let_def)
  next
    case True
    let ?rg = "tbl ! nat (a - AXIS_A)"
    let ?dev1 = "libevdev_set_abs_maximum (libevdev_set_abs_minimum dev a (min_val ?rg)) a (max_val ?rg)"
    have has: "libevdev_has_event_code dev EV_ABS a"
      using True Cons.prems by simp
    have "apply_ranges tbl (pre @ b # post) ?dev1 =
           (Inl (MismatchError b), snd (apply_ranges tbl pre ?dev1))"
      using Cons.prems by (intro Cons.IH) (simp_all add: libevdev_has_event_code_def)
    then show ?thesis using True has by (simp add: Let_def)
  qed
qed

lemma apply_ranges_applied:
  assumes "\<forall>a\<in>set as. present (tbl ! nat (a - AXIS_A)) \<longrightarrow> libevdev_has_event_code dev EV_ABS a"
  shows "abs_minimum (snd (apply_ranges tbl as dev)) c =
           (if c \<in> set as \<and> present (tbl ! nat (c - AXIS_A))
            then min_val (tbl ! nat (c - AXIS_A)) else abs_minimum dev c)
       \<and> abs_maximum (snd (apply_ranges tbl as dev)) c =
           (if c \<in> set as \<and> present (tbl ! nat (c - AXIS_A))
            then max_val (tbl ! nat (c - AXIS_A)) else abs_maximum dev c)"
  using assms
proof (induction as arbitrary: dev)
  case Nil
  then show ?case by simp
next
  case (Cons a as)
  show ?case
  proof (cases "present (tbl ! nat (a - AXIS_A))")
    case False
    then show ?thesis using Cons.IH [of dev] Cons.prems by (auto simp: Let_def)
  next
    case True
    let ?rg = "tbl ! nat (a - AXIS_A)"
    let ?dev1 = "libevdev_set_abs_maximum (libevdev_set_abs_minimum dev a (min_val ?rg)) a (max_val ?rg)"
    have has: "libevdev_has_event_code dev EV_ABS a"
      using True Cons.prems by simp
    have step: "apply_ranges tbl (a # as) dev = apply_ranges tbl as ?dev1"
      using True has by (simp add: Let_def)
    have d1: "abs_minimum ?dev1 c = (if c = a then min_val ?rg else abs_minimum dev c)"
      "abs_maximum ?dev1 c = (if c = a then max_val ?rg else abs_maximum dev c)"
      using has
      by (simp_all add: libevdev_set_abs_minimum_def libevdev_set_abs_maximum_def Let_def
            libevdev_has_event_code_def)
    have "\<forall>a\<in>set as. present (tbl ! nat (a - AXIS_A)) \<longrightarrow> libevdev_has_event_code ?dev1 EV_ABS a"
      using Cons.prems by (simp add: libevdev_has_event_code_def)
    from Cons.IH [OF this] show ?thesis
      unfolding step d1 using True by auto
  qed
qed

text \<open>
  Claim C2, as the code has it: when the parsed table marks present an axis the device
  lacks, and \<open>b\<close> is the lowest such axis, \<open>load\<close> fails with the mismatch at \<open>b\<close>; by
  then the ranges of the present axes below \<open>b\<close> have been written to the device, and the
  minimum and maximum of every other axis are what they were.
\<close>

theorem load_mismatch:
  assumes "read_ranges fuel indet 0 \<lparr>buf = content, eof = False\<rparr> zero_ranges 0 = Some (Inr (tbl, n))"
    and "AXIS_A \<le> b" "b \<le> AXIS_Z"
    and "present (tbl ! nat (b - AXIS_A))" "\<not> libevdev_has_event_code dev EV_ABS b"
    and "\<forall>a. AXIS_A \<le> a \<and> a < b \<and> present (tbl ! nat (a - AXIS_A))
            \<longrightarrow> libevdev_has_event_code dev EV_ABS a"
  shows "\<exists>dev'. load fuel indet dev (Some content) =
             Some \<lparr>result = Inl (MismatchError b), device = dev', parsed = tbl, read_reports = n\<rparr>
          \<and> (\<forall>a. abs_minimum dev' a =
                   (if AXIS_A \<le> a \<and> a < b \<and> present (tbl ! nat (a - AXIS_A))
                    then min_val (tbl ! nat (a - AXIS_A)) else abs_minimum dev a)
                \<and> abs_maximum dev' a =
                   (if AXIS_A \<le> a \<and> a < b \<and> present (tbl ! nat (a - AXIS_A))
                    then max_val (tbl ! nat (a - AXIS_A)) else abs_maximum dev a))"
proof -
  let ?pre = "[AXIS_A..b - 1]"
  have split: "[AXIS_A..AXIS_Z] = ?pre @ b # [b + 1..AXIS_Z]"
    using assms(2,3) by (rule upto_split3)
  have pre: "\<forall>a\<in>set ?pre. present (tbl ! nat (a - AXIS_A)) \<longrightarrow> libevdev_has_event_code dev EV_ABS a"
    using assms(6) by simp
  have ap: "apply_ranges tbl [AXIS_A..AXIS_Z] dev =
      (Inl (MismatchError b), snd (apply_ranges tbl ?pre dev))"
    unfolding split using pre assms(4,5) by (rule apply_ranges_mismatch)
  have ld: "load fuel indet dev (Some content) =
      Some \<lparr>result = Inl (MismatchError b), device = snd (apply_ranges tbl ?pre dev),
            parsed = tbl, read_reports = n\<rparr>"
    by (simp add: load_def assms(1) ap)
  have "abs_minimum (snd (apply_ranges tbl ?pre dev)) a =
           (if AXIS_A \<le> a \<and> a < b \<and> present (tbl ! nat (a - AXIS_A))
            then min_val (tbl ! nat (a - AXIS_A)) else abs_minimum dev a)
       \<and> abs_maximum (snd (apply_ranges tbl ?pre dev)) a =
           (if AXIS_A \<le> a \<and> a < b \<and> present (tbl ! nat (a - AXIS_A))
            then max_val (tbl ! nat (a - AXIS_A)) else abs_maximum dev a)" for a
    using apply_ranges_applied [OF pre, of a] by auto
  then show ?thesis using ld by blast
qed

lemma read_two_lines:
  "read_ranges 3 zeroed 0
     \<lparr>buf = ''axis 0: min = 1, max = 2\<newline>axis 1: min = 3, max = 4\<newline>'', eof = False\<rparr>
     zero_ranges 0
   = Some (Inr ([\<lparr>present = True, min_val = 1, max_val = 2\<rparr>,
                 \<lparr>present = True, min_val = 3, max_val = 4\<rparr>,
                 zero_range, zero_range, zero_range, zero_range], 0))"
  by (simp add: scan_eval axis_consts numeral_3_eq_3 zero_ranges_def numeral_eq_Suc)

text \<open>
  Claim C2 at the slider, which has axis 0 only, and a file with lines for the axes 0
  and 1.
\<close>

theorem load_mismatch_witness:
  "result (the (load 3 zeroed slider
       (Some ''axis 0: min = 1, max = 2\<newline>axis 1: min = 3, max = 4\<newline>''))) = Inl (MismatchError 1)
   \<and> abs_minimum (device (the (load 3 zeroed slider
       (Some ''axis 0: min = 1, max = 2\<newline>axis 1: min = 3, max = 4\<newline>'')))) 0 = 1
   \<and> abs_minimum (device (the (load 3 zeroed slider
       (Some ''axis 0: min = 1, max = 2\<newline>axis 1: min = 3, max = 4\<newline>'')))) 1 = abs_minimum slider 1"
proof -
  let ?tbl = "[\<lparr>present = True, min_val = 1, max_val = 2\<rparr>,
                 \<lparr>present = True, min_val = 3, max_val = 4\<rparr>,
                 zero_range, zero_range, zero_range, zero_range]"
  have b: "AXIS_A \<le> 1" "1 \<le> AXIS_Z" "present (?tbl ! nat (1 - AXIS_A))"
    "\<not> libevdev_has_event_code slider EV_ABS 1"
    by (simp_all add: axis_consts libevdev_has_event_code_def slider_def)
  have below: "\<forall>a. AXIS_A \<le> a \<and> a < 1 \<and> present (?tbl ! nat (a - AXIS_A))
            \<longrightarrow> libevdev_has_event_code slider EV_ABS a"
    by (auto simp: axis_consts libevdev_has_event_code_def slider_def)
  from load_mismatch [OF read_two_lines b below]
  obtain dev' where l: "load 3 zeroed slider
       (Some ''axis 0: min = 1, max = 2\<newline>axis 1: min = 3, max = 4\<newline>'') =
       Some \<lparr>result = Inl (MismatchError 1), device = dev', parsed = ?tbl, read_reports = 0\<rparr>"
    and d: "\<forall>a. abs_minimum dev' a =
                   (if AXIS_A \<le> a \<and> a < 1 \<and> present (?tbl ! nat (a - AXIS_A))
                    then min_val (?tbl ! nat (a - AXIS_A)) else abs_minimum slider a)
                \<and> abs_maximum dev' a =
                   (if AXIS_A \<le> a \<and> a < 1 \<and> present (?tbl ! nat (a - AXIS_A))
                    then max_val (?tbl ! nat (a - AXIS_A)) else abs_maximum slider a)"
    by blast
  have "abs_minimum dev' 0 = 1" "abs_minimum dev' 1 = abs_minimum slider 1"
    using d [rule_format, of 0] d [rule_format, of 1] by (simp_all add: axis_consts)
  then show ?thesis
    by (simp add: l)
qed

text \<open>
  Claim C2 as stated fails: on the same input \<open>load\<close> fails with the mismatch at axis 1,
  yet the range of axis 0 on the device has changed from 0..0 to 1..2.
\<close>

theorem load_mismatch_partial:
  "result (the (load 3 zeroed slider
       (Some ''axis 0: min = 1, max = 2\<newline>axis 1: min = 3, max = 4\<newline>''))) = Inl (MismatchError 1)
   \<and> abs_minimum slider 0 = 0 \<and> abs_maximum slider 0 = 0
   \<and> abs_minimum (device (the (load 3 zeroed slider
       (Some ''axis 0: min = 1, max = 2\<newline>axis 1: min = 3, max = 4\<newline>'')))) 0 = 1
   \<and> abs_maximum (device (the (load 3 zeroed slider
       (Some ''axis 0: min = 1, max = 2\<newline>axis 1: min = 3, max = 4\<newline>'')))) 0 = 2"
  by (simp add: load_def read_two_lines axis_consts upto_rec1 Let_def slider_def
        libevdev_has_event_code_def libevdev_set_abs_minimum_def libevdev_set_abs_maximum_def
        zero_range_def)

section \<open>load: reading the map file\<close>

text \<open>
  Claim C10: the index \<open>axis - AXIS_A\<close> is used without a check. The well-formed line
  \<open>axis 100: min = 0, max = 1\<close> makes \<open>load\<close> write outside the table; and for the file
  \<open>axis 3\<close>, where only the first of the three fields is matched, the entry of axis 3 is
  marked present with the indeterminate values of \<open>min\<close> and \<open>max\<close>.
\<close>

theorem load_index_unchecked:
  "load (Suc fuel) indet dev (Some ''axis 100: min = 0, max = 1\<newline>'') =
     Some \<lparr>result = Inl (IndexOutOfBounds 100), device = dev, parsed = zero_ranges,
           read_reports = 0\<rparr>
   \<and> read_ranges (Suc (Suc fuel)) indet 0 \<lparr>buf = ''axis 3'', eof = False\<rparr> zero_ranges 0 =
       Some (Inr (zero_ranges[3 := \<lparr>present = True, min_val = min_var (indet 0),
                                   max_val = max_var (indet 0)\<rparr>], 0))"
  by (simp add: load_def scan_eval axis_consts)

lemma fscanf_mismatch:
  assumes "buf fp = c # cs" "c \<noteq> CHR ''a''"
  shows "fscanf fp MAP_FILE_LINE_FORMAT = \<lparr>stopped = Some MatchingFailure, assigned = [], stream = fp\<rparr>"
  using assms by (simp add: fscanf_def MAP_FILE_LINE_FORMAT_def match_char_def isspace_def)

lemma fscanf_empty:
  assumes "buf fp = []"
  shows "fscanf fp MAP_FILE_LINE_FORMAT =
     \<lparr>stopped = Some InputFailure, assigned = [], stream = fp\<lparr>eof := True\<rparr>\<rparr>"
  using assms by (simp add: fscanf_def MAP_FILE_LINE_FORMAT_def match_char_def isspace_def)

lemma read_ranges_stuck:
  assumes "buf fp = c # cs" "c \<noteq> CHR ''a''" "\<not> eof fp"
  shows "read_ranges fuel indet k fp tbl n \<noteq> Some (Inr res)"
proof (induction fuel arbitrary: k tbl n)
  case 0
  then show ?case by simp
next
  case (Suc fuel)
  show ?case
    using assms(3) Suc.IH
    by (simp add: fscanf_mismatch [OF assms(1,2)] feof_def returned_def store_def Let_def)
qed

lemma read_ranges_stuck_zeroed:
  assumes "buf fp = c # cs" "c \<noteq> CHR ''a''" "\<not> eof fp"
  shows "read_ranges fuel zeroed k fp tbl n = None"
proof (induction fuel arbitrary: k tbl n)
  case 0
  then show ?case by simp
next
  case (Suc fuel)
  show ?case
    using assms(3) Suc.IH
    by (simp add: fscanf_mismatch [OF assms(1,2)] feof_def returned_def store_def Let_def
          zeroed_def axis_consts)
qed

lemma fscanf_first_line:
  "fscanf \<lparr>buf = ''axis 0: min = 1, max = 2\<newline>foo\<newline>'', eof = False\<rparr> MAP_FILE_LINE_FORMAT
    = \<lparr>stopped = None, assigned = [0, 1, 2], stream = \<lparr>buf = ''foo\<newline>'', eof = False\<rparr>\<rparr>"
  by (simp add: scan_eval)

text \<open>
  Claim C4 fails on the code. For the file with the two lines \<open>axis 0: min = 1, max = 2\<close>
  and \<open>foo\<close>: on the second line \<^verbatim>\<open>fscanf\<close> returns 0, which is not negative, so
  nothing is reported, and it consumes no input, so the end of the file is never
  reached. For every bound on the number of iterations and all values of the
  uninitialised locals the loop does not end with a table; when the locals hold zero
  it does not end at all, and \<open>load\<close> does not return.
\<close>

theorem read_ranges_malformed_line_diverges:
  "returned (fscanf \<lparr>buf = ''foo\<newline>'', eof = False\<rparr> MAP_FILE_LINE_FORMAT) = 0
   \<and> stream (fscanf \<lparr>buf = ''foo\<newline>'', eof = False\<rparr> MAP_FILE_LINE_FORMAT)
       = \<lparr>buf = ''foo\<newline>'', eof = False\<rparr>
   \<and> read_ranges fuel indet 0
        \<lparr>buf = ''axis 0: min = 1, max = 2\<newline>foo\<newline>'', eof = False\<rparr> zero_ranges 0
       \<noteq> Some (Inr res)
   \<and> read_ranges fuel zeroed 0
        \<lparr>buf = ''axis 0: min = 1, max = 2\<newline>foo\<newline>'', eof = False\<rparr> zero_ranges 0 = None
   \<and> load fuel zeroed dev (Some ''axis 0: min = 1, max = 2\<newline>foo\<newline>'') = None"
proof -
  let ?foo = "\<lparr>buf = ''foo\<newline>'', eof = False\<rparr>"
  have f: "buf ?foo = CHR ''f'' # ''oo\<newline>''" "CHR ''f'' \<noteq> CHR ''a''" "\<not> eof ?foo"
    by simp_all
  have a: "returned (fscanf ?foo MAP_FILE_LINE_FORMAT) = 0"
      "stream (fscanf ?foo MAP_FILE_LINE_FORMAT) = ?foo"
    by (simp_all add: fscanf_mismatch [OF f(1,2)] returned_def)
  have b: "read_ranges fuel indet 0
        \<lparr>buf = ''axis 0: min = 1, max = 2\<newline>foo\<newline>'', eof = False\<rparr> zero_ranges 0
       \<noteq> Some (Inr res)"
  proof (cases fuel)
    case 0
    then show ?thesis by simp
  next
    case (Suc m)
    show ?thesis
      unfolding Suc using read_ranges_stuck [OF f, of m indet]
      by (simp add: fscanf_first_line feof_def returned_def store_def Let_def axis_consts)
  qed
  have c: "read_ranges fuel zeroed 0
        \<lparr>buf = ''axis 0: min = 1, max = 2\<newline>foo\<newline>'', eof = False\<rparr> zero_ranges 0 = None"
  proof (cases fuel)
    case 0
    then show ?thesis by simp
  next
    case (Suc m)
    show ?thesis
      unfolding Suc using read_ranges_stuck_zeroed [OF f, of m]
      by (simp add: fscanf_first_line feof_def returned_def store_def Let_def axis_consts)
  qed
  show ?thesis
    using a b c by (simp add: load_def)
qed

section \<open>load after detect: reading back the written file\<close>

lemma digit_char_digit:
  assumes "d < 10"
  shows "isdigit (digit_char d)" "digit_val (digit_char d) = d"
  using assms by (simp_all add: isdigit_def digit_val_def digit_char_def)

lemma dec_digits: "\<forall>c\<in>set (dec n). isdigit c"
proof (induction n rule: dec.induct)
  case (1 n)
  show ?case
  proof (cases "n < 10")
    case True
    then show ?thesis by (simp add: dec.simps [of n] digit_char_digit)
  next
    case False
    then show ?thesis using 1 by (simp add: dec.simps [of n] digit_char_digit)
  qed
qed

lemma dec_nonempty [simp]: "dec n \<noteq> []"
  by (simp add: dec.simps [of n])

lemma dec_val_append: "dec_val acc (xs @ ys) = dec_val (dec_val acc xs) ys"
  by (induction xs arbitrary: acc) simp_all

lemma dec_val_dec: "dec_val 0 (dec n) = n"
proof (induction n rule: dec.induct)
  case (1 n)
  show ?case
  proof (cases "n < 10")
    case True
    then show ?thesis by (simp add: dec.simps [of n] digit_char_digit)
  next
    case False
    then have "dec_val 0 (dec n) = 10 * (n div 10) + n mod 10"
      using 1 by (simp add: dec.simps [of n] dec_val_append digit_char_digit)
    then show ?thesis by simp
  qed
qed

lemma isdigit_plain:
  assumes "isdigit c"
  shows "\<not> isspace c" "c \<noteq> CHR ''-''" "c \<noteq> CHR ''+''"
  using assms by (auto simp: isdigit_def isspace_def)

lemma read_number_dec:
  assumes "\<not> isdigit c"
  shows "read_number \<lparr>buf = dec n @ c # rest, eof = e\<rparr> = Inr (int n, \<lparr>buf = c # rest, eof = e\<rparr>)"
proof -
  obtain d ds where d: "dec n = d # ds"
    using dec_nonempty [of n] by (cases "dec n") simp_all
  have dig: "\<forall>x\<in>set (d # ds). isdigit x"
    using dec_digits [of n] by (simp add: d)
  then have p: "\<not> isspace d" "d \<noteq> CHR ''-''" "d \<noteq> CHR ''+''"
    using isdigit_plain [of d] by simp_all
  have t: "takeWhile isdigit (d # ds @ c # rest) = d # ds"
    using dig assms takeWhile_append2 [of "d # ds" isdigit "c # rest"] by simp
  have r: "dropWhile isdigit (d # ds @ c # rest) = c # rest"
    using dig assms dropWhile_append2 [of "d # ds" isdigit "c # rest"] by simp
  have v: "dec_val 0 (d # ds) = n"
    using dec_val_dec [of n] by (simp add: d)
  have sk: "skip_space \<lparr>buf = dec n @ c # rest, eof = e\<rparr> = \<lparr>buf = d # ds @ c # rest, eof = e\<rparr>"
    using p(1) by (simp add: skip_space_def d)
  show ?thesis
    unfolding read_number_def sk
    using p(2,3) by (simp add: Let_def t r v del: takeWhile.simps dropWhile.simps dec_val.simps)
qed

lemma convert_dec:
  assumes "\<not> isdigit c" "n < 2 ^ 32"
  shows "convert d \<lparr>buf = dec n @ c # rest, eof = e\<rparr> = Inr (of_nat n, \<lparr>buf = c # rest, eof = e\<rparr>)"
proof -
  have n: "int n < 2 ^ 32" "0 \<le> int n"
    using assms(2) by simp_all
  then have "strtol_value (int n) = int n" "strtoul_value (int n) = int n"
    by (simp_all add: strtol_value_def strtoul_value_def)
  then show ?thesis
    by (simp add: convert_def read_number_dec [OF assms(1)])
qed

lemma skip_space_dec:
  "skip_space \<lparr>buf = CHR '' '' # dec n @ xs, eof = False\<rparr> = \<lparr>buf = dec n @ xs, eof = False\<rparr>"
proof -
  obtain d ds where d: "dec n = d # ds"
    using dec_nonempty [of n] by (cases "dec n") simp_all
  have "\<not> isspace d"
    using dec_digits [of n] isdigit_plain(1) [of d] by (simp add: d)
  moreover have "isspace CHR '' ''"
    by (simp add: isspace_def)
  ultimately show ?thesis
    by (simp add: skip_space_def d)
qed

lemma fscanf_line:
  assumes "a < 2 ^ 31" "mn < 2 ^ 32" "mx < 2 ^ 32" "dropWhile isspace rest = rest"
  shows "fscanf \<lparr>buf = ''axis '' @ dec a @ '': min = '' @ dec mn @ '', max = '' @ dec mx
                      @ ''\<newline>'' @ rest, eof = False\<rparr> MAP_FILE_LINE_FORMAT
     = \<lparr>stopped = None, assigned = [of_nat a, of_nat mn, of_nat mx],
        stream = \<lparr>buf = rest, eof = (rest = [])\<rparr>\<rparr>"
proof -
  have nd: "\<not> isdigit CHR '':''" "\<not> isdigit CHR '',''" "\<not> isdigit CHR ''\<newline>''"
    by (simp_all add: isdigit_def)
  have a32: "a < 2 ^ 32"
    using assms(1) by simp
  have c1: "convert Conv_d \<lparr>buf = dec a @ CHR '':'' # xs, eof = False\<rparr> =
      Inr (of_nat a, \<lparr>buf = CHR '':'' # xs, eof = False\<rparr>)" for xs
    using convert_dec [OF nd(1) a32, of Conv_d] by simp
  have c2: "convert Conv_u \<lparr>buf = dec mn @ CHR '','' # xs, eof = False\<rparr> =
      Inr (of_nat mn, \<lparr>buf = CHR '','' # xs, eof = False\<rparr>)" for xs
    using convert_dec [OF nd(2) assms(2), of Conv_u] by simp
  have c3: "convert Conv_u \<lparr>buf = dec mx @ CHR ''\<newline>'' # xs, eof = False\<rparr> =
      Inr (of_nat mx, \<lparr>buf = CHR ''\<newline>'' # xs, eof = False\<rparr>)" for xs
    using convert_dec [OF nd(3) assms(3), of Conv_u] by simp
  have sp: "skip_space \<lparr>buf = CHR '' '' # CHR ''m'' # xs, eof = False\<rparr>
              = \<lparr>buf = CHR ''m'' # xs, eof = False\<rparr>"
      "skip_space \<lparr>buf = CHR '' '' # CHR ''='' # xs, eof = False\<rparr>
              = \<lparr>buf = CHR ''='' # xs, eof = False\<rparr>"
      "skip_space \<lparr>buf = CHR ''\<newline>'' # rest, eof = False\<rparr> = \<lparr>buf = rest, eof = (rest = [])\<rparr>" for xs
    using assms(4) by (simp_all add: skip_space_def isspace_def)
  show ?thesis
    by (simp add: fscanf_def MAP_FILE_LINE_FORMAT_def isspace_def match_char_def
          skip_space_dec c1 c2 c3 sp)
qed

lemma fscanf_sprintf:
  assumes "AXIS_A \<le> a" "a \<le> AXIS_Z" "dropWhile isspace rest = rest"
  shows "fscanf \<lparr>buf = sprintf MAP_FILE_LINE_FORMAT [word_of_int a, mn, mx] @ rest, eof = False\<rparr>
           MAP_FILE_LINE_FORMAT
     = \<lparr>stopped = None, assigned = [word_of_int a, mn, mx],
        stream = \<lparr>buf = rest, eof = (rest = [])\<rparr>\<rparr>"
proof -
  have a: "nat a < 2 ^ 31" "(of_nat (nat a) :: 32 word) = word_of_int a"
    using axis_bounds [OF assms(1,2)] by simp_all
  have m: "unat mn < 2 ^ 32" "unat mx < 2 ^ 32"
    using unsigned_less [of mn] unsigned_less [of mx] by simp_all
  from fscanf_line [OF a(1) m assms(3)] show ?thesis
    by (simp add: sprintf_line print_d_axis [OF assms(1,2)] print_u_def a(2))
qed

lemma sprintf_starts:
  "\<exists>cs. sprintf MAP_FILE_LINE_FORMAT [a, mn, mx] = CHR ''a'' # cs"
  by (simp add: sprintf_line)

lemma read_ranges_lines:
  assumes "as \<noteq> []" "\<forall>a\<in>set as. AXIS_A \<le> a \<and> a \<le> AXIS_Z" "length as < fuel"
  shows "read_ranges fuel indet k
           \<lparr>buf = concat (map (\<lambda>a. sprintf MAP_FILE_LINE_FORMAT [word_of_int a, mn a, mx a]) as),
             eof = False\<rparr> tbl n
       = Some (Inr (fold (\<lambda>a t. t[nat (a - AXIS_A) :=
                        \<lparr>present = True, min_val = mn a, max_val = mx a\<rparr>]) as tbl, n))"
  using assms
proof (induction as arbitrary: fuel k tbl)
  case Nil
  then show ?case by simp
next
  case (Cons a as)
  let ?file = "\<lambda>as. concat (map (\<lambda>a. sprintf MAP_FILE_LINE_FORMAT [word_of_int a, mn a, mx a]) as)"
  let ?tbl = "tbl[nat (a - AXIS_A) := \<lparr>present = True, min_val = mn a, max_val = mx a\<rparr>]"
  obtain f where fuel: "fuel = Suc f" "length as < f"
    using Cons.prems(3) by (cases fuel) simp_all
  have a: "AXIS_A \<le> a" "a \<le> AXIS_Z"
    using Cons.prems(2) by simp_all
  have sa: "sint (word_of_int a :: 32 word) = a"
    using axis_bounds [OF a] by (simp add: sint_sbintrunc' signed_take_bit_int_eq_self)
  have i: "\<not> (a - AXIS_A < 0 \<or> int AXIS_COUNT \<le> a - AXIS_A)"
    using a by (simp add: AXIS_COUNT_def)
  have rest: "dropWhile isspace (?file as) = ?file as"
  proof (cases as)
    case Nil
    then show ?thesis by simp
  next
    case (Cons b bs)
    obtain cs where "sprintf MAP_FILE_LINE_FORMAT [word_of_int b, mn b, mx b] = CHR ''a'' # cs"
      using sprintf_starts by blast
    then show ?thesis
      by (simp add: Cons isspace_def)
  qed
  have sc: "fscanf \<lparr>buf = ?file (a # as), eof = False\<rparr> MAP_FILE_LINE_FORMAT
     = \<lparr>stopped = None, assigned = [word_of_int a, mn a, mx a],
        stream = \<lparr>buf = ?file as, eof = (?file as = [])\<rparr>\<rparr>"
    using fscanf_sprintf [OF a rest] by simp
  have step: "read_ranges fuel indet k \<lparr>buf = ?file (a # as), eof = False\<rparr> tbl n
      = read_ranges f indet (Suc k) \<lparr>buf = ?file as, eof = (?file as = [])\<rparr> ?tbl n"
    unfolding fuel read_ranges.simps sc
    using i by (simp add: feof_def returned_def store_def sa Let_def)
  show ?case
  proof (cases as)
    case Nil
    obtain f' where "f = Suc f'"
      using fuel(2) by (cases f) simp_all
    then show ?thesis
      unfolding step by (simp add: Nil feof_def)
  next
    case (Cons b bs)
    obtain cs where "sprintf MAP_FILE_LINE_FORMAT [word_of_int b, mn b, mx b] = CHR ''a'' # cs"
      using sprintf_starts by blast
    then have ne: "?file as \<noteq> []"
      by (simp add: Cons)
    have "read_ranges f indet (Suc k) \<lparr>buf = ?file as, eof = False\<rparr> ?tbl n
       = Some (Inr (fold (\<lambda>a t. t[nat (a - AXIS_A) :=
                        \<lparr>present = True, min_val = mn a, max_val = mx a\<rparr>]) as ?tbl, n))"
      using Cons Cons.prems(2) fuel(2) by (intro Cons.IH) simp_all
    moreover have "read_ranges fuel indet k \<lparr>buf = ?file (a # as), eof = False\<rparr> tbl n
      = read_ranges f indet (Suc k) \<lparr>buf = ?file as, eof = False\<rparr> ?tbl n"
      unfolding step by (simp only: ne)
    ultimately show ?thesis
      by simp
  qed
qed

lemma fold_update_length [simp]:
  "length (fold (\<lambda>a t. t[g a := f a]) as t0) = length t0"
  by (induction as arbitrary: t0) simp_all

lemma fold_update_nth:
  assumes "\<forall>a\<in>set as. AXIS_A \<le> a" "AXIS_A \<le> b" "nat (b - AXIS_A) < length t0"
  shows "fold (\<lambda>a t. t[nat (a - AXIS_A) := f a]) as t0 ! nat (b - AXIS_A)
       = (if b \<in> set as then f b else t0 ! nat (b - AXIS_A))"
  using assms
proof (induction as arbitrary: t0)
  case Nil
  then show ?case by simp
next
  case (Cons a as)
  have "(nat (a - AXIS_A) = nat (b - AXIS_A)) = (a = b)"
    using Cons.prems(1,2) axis_index_inj [of a b] by auto
  then have "(t0[nat (a - AXIS_A) := f a]) ! nat (b - AXIS_A)
      = (if a = b then f a else t0 ! nat (b - AXIS_A))"
    using Cons.prems(3) by (simp add: nth_list_update)
  then show ?case
    using Cons.IH [of "t0[nat (a - AXIS_A) := f a]"] Cons.prems by auto
qed

text \<open>
  For a table with at least one present axis, what \<open>load\<close> reads from the file
  \<open>detect\<close> writes has the same present axes with the same \<open>min\<close> and \<open>max\<close>, whatever
  the uninitialised locals hold, once the bound on the iterations exceeds the number of
  axes.
\<close>

lemma read_write_roundtrip:
  assumes "length tbl = AXIS_COUNT"
    and "\<exists>a. AXIS_A \<le> a \<and> a \<le> AXIS_Z \<and> present (tbl ! nat (a - AXIS_A))"
    and "\<forall>k. ok k" "AXIS_COUNT < fuel"
  shows "\<exists>file tbl'. write_ranges ok 0 tbl [AXIS_A..AXIS_Z] [] = (Inr (), file)
     \<and> read_ranges fuel indet 0 \<lparr>buf = file, eof = False\<rparr> zero_ranges 0 = Some (Inr (tbl', 0))
     \<and> length tbl' = AXIS_COUNT
     \<and> (\<forall>a. AXIS_A \<le> a \<and> a \<le> AXIS_Z \<longrightarrow>
           tbl' ! nat (a - AXIS_A) =
             (if present (tbl ! nat (a - AXIS_A)) then tbl ! nat (a - AXIS_A) else zero_range))"
proof -
  let ?as = "filter (\<lambda>a. present (tbl ! nat (a - AXIS_A))) [AXIS_A..AXIS_Z]"
  let ?mn = "\<lambda>a. min_val (tbl ! nat (a - AXIS_A))"
  let ?mx = "\<lambda>a. max_val (tbl ! nat (a - AXIS_A))"
  let ?file = "concat (map (\<lambda>a. sprintf MAP_FILE_LINE_FORMAT [word_of_int a, ?mn a, ?mx a]) ?as)"
  let ?tbl' = "fold (\<lambda>a t. t[nat (a - AXIS_A) :=
                        \<lparr>present = True, min_val = ?mn a, max_val = ?mx a\<rparr>]) ?as zero_ranges"
  have w: "write_ranges ok 0 tbl [AXIS_A..AXIS_Z] [] = (Inr (), ?file)"
    using assms(3) by (simp add: write_ranges_ok del: write_ranges.simps)
  have ne: "?as \<noteq> []"
    using assms(2) by (auto simp: filter_empty_conv)
  have rng: "\<forall>a\<in>set ?as. AXIS_A \<le> a \<and> a \<le> AXIS_Z"
    by simp
  have "length ?as \<le> length [AXIS_A..AXIS_Z]"
    by (rule length_filter_le)
  also have "\<dots> = AXIS_COUNT"
    by (simp add: AXIS_COUNT_def)
  finally have len: "length ?as < fuel"
    using assms(4) by simp
  have r: "read_ranges fuel indet 0 \<lparr>buf = ?file, eof = False\<rparr> zero_ranges 0 = Some (Inr (?tbl', 0))"
    using ne rng len by (rule read_ranges_lines)
  have n: "?tbl' ! nat (a - AXIS_A) =
             (if present (tbl ! nat (a - AXIS_A)) then tbl ! nat (a - AXIS_A) else zero_range)"
    if "AXIS_A \<le> a \<and> a \<le> AXIS_Z" for a
  proof -
    have i: "nat (a - AXIS_A) < length zero_ranges"
      using that by (simp add: zero_ranges_def axis_index)
    have "?tbl' ! nat (a - AXIS_A) =
        (if a \<in> set ?as then \<lparr>present = True, min_val = ?mn a, max_val = ?mx a\<rparr>
         else zero_ranges ! nat (a - AXIS_A))"
      using that i by (intro fold_update_nth) simp_all
    then show ?thesis
      using that i by (simp add: zero_ranges_def)
  qed
  have "length ?tbl' = AXIS_COUNT"
    by (simp add: zero_ranges_def)
  then show ?thesis
    using w r n by blast
qed

text \<open>
  Claim C3 fails on the code at the table with no present axis. The file written for it
  is empty; on the empty file the loop body runs once, since no read has set the
  end-of-file indicator yet, \<^verbatim>\<open>fscanf\<close> assigns nothing, and the entry indexed by the
  uninitialised \<open>axis\<close> is marked present (or the write falls outside the table). The
  table read back is never the table with no present axis; with the locals holding
  zero it has axis 0 present.
\<close>

theorem read_empty_file_not_empty_table:
  "write_ranges ok 0 zero_ranges [AXIS_A..AXIS_Z] [] = (Inr (), [])
   \<and> read_ranges fuel indet 0 \<lparr>buf = [], eof = False\<rparr> zero_ranges 0 \<noteq> Some (Inr (zero_ranges, n))
   \<and> read_ranges (Suc (Suc fuel)) zeroed 0 \<lparr>buf = [], eof = False\<rparr> zero_ranges 0
       = Some (Inr (zero_ranges[0 := \<lparr>present = True, min_val = 0, max_val = 0\<rparr>], 1))"
proof -
  let ?fp = "\<lparr>buf = [], eof = False\<rparr>"
  have w: "write_ranges ok k zero_ranges as [] = (Inr (), [])" if "set as \<subseteq> {AXIS_A..AXIS_Z}" for as k
    using that 
  proof (induction as)
    case Nil
    then show ?case by simp
  next
    case (Cons a as)
    then have "nat (a - AXIS_A) < AXIS_COUNT"
      by (simp add: axis_index)
    then have "\<not> present (zero_ranges ! nat (a - AXIS_A))"
      by (simp add: zero_ranges_def zero_range_def)
    then show ?case using Cons by (simp add: Let_def)
  qed
  have e: "fscanf ?fp MAP_FILE_LINE_FORMAT =
     \<lparr>stopped = Some InputFailure, assigned = [], stream = \<lparr>buf = [], eof = True\<rparr>\<rparr>"
    by (simp add: fscanf_empty)
  have ne: "zero_ranges[i := \<lparr>present = True, min_val = x, max_val = y\<rparr>] \<noteq> zero_ranges"
    if "i < AXIS_COUNT" for i x y
  proof
    assume "zero_ranges[i := \<lparr>present = True, min_val = x, max_val = y\<rparr>] = zero_ranges"
    then have "present (zero_ranges[i := \<lparr>present = True, min_val = x, max_val = y\<rparr>] ! i)
        = present (zero_ranges ! i)"
      by simp
    then show False
      using that by (simp add: zero_ranges_def zero_range_def)
  qed
  have r: "read_ranges fuel indet 0 ?fp zero_ranges 0 \<noteq> Some (Inr (zero_ranges, n))"
  proof (cases fuel)
    case 0
    then show ?thesis by simp
  next
    case (Suc m)
    show ?thesis
    proof (cases m)
      case 0
      then show ?thesis
        unfolding Suc by (simp add: e feof_def Let_def)
    next
      case (Suc m')
      show ?thesis
        unfolding \<open>fuel = Suc m\<close> Suc
        using ne [of "nat (sint (axis_var (indet 0)) - AXIS_A)"]
        by (auto simp: e feof_def Let_def returned_def store_def)
    qed
  qed
  have z: "read_ranges (Suc (Suc fuel)) zeroed 0 ?fp zero_ranges 0
       = Some (Inr (zero_ranges[0 := \<lparr>present = True, min_val = 0, max_val = 0\<rparr>], 1))"
    by (simp add: e feof_def Let_def returned_def store_def zeroed_def axis_consts)
  show ?thesis
    using w [of "[AXIS_A..AXIS_Z]" 0] r z by simp
qed

section \<open>load: axes the map file does not mention\<close>

lemma zero_ranges_list:
  "zero_ranges = [zero_range, zero_range, zero_range, zero_range, zero_range, zero_range]"
  by (simp add: zero_ranges_def AXIS_COUNT_6 numeral_eq_Suc)

lemma read_empty_zeroed:
  "read_ranges (Suc (Suc fuel)) zeroed 0 \<lparr>buf = [], eof = False\<rparr> zero_ranges 0
     = Some (Inr (zero_ranges[0 := \<lparr>present = True, min_val = 0, max_val = 0\<rparr>], 1))"
  by (simp add: fscanf_empty feof_def Let_def returned_def store_def zeroed_def axis_consts)

text \<open>
  Claim C8 fails on the code. The empty map file has no line for any axis, yet \<open>load\<close>
  on the pad, with the uninitialised locals holding zero, returns \<^verbatim>\<open>true\<close> after it
  has called both setters for axis 0: the range the pad advertises for axis 0 changes
  from 5..9 to 0..0. The first loop runs its body once on the empty file and marks
  the entry indexed by the unassigned \<open>axis\<close> present; the second loop then applies it.
\<close>

theorem load_empty_file_sets_axis:
  "load (Suc (Suc fuel)) zeroed pad (Some []) \<noteq> None
   \<and> result (the (load (Suc (Suc fuel)) zeroed pad (Some []))) = Inr ()
   \<and> abs_calls (device (the (load (Suc (Suc fuel)) zeroed pad (Some []))))
       = [SetAbsMinimum 0 0, SetAbsMaximum 0 0]
   \<and> abs_minimum pad 0 = 5 \<and> abs_maximum pad 0 = 9
   \<and> abs_minimum (device (the (load (Suc (Suc fuel)) zeroed pad (Some [])))) 0 = 0
   \<and> abs_maximum (device (the (load (Suc (Suc fuel)) zeroed pad (Some [])))) 0 = 0"
  unfolding load_def option.case read_empty_zeroed sum.case prod.case
  by (simp add: zero_ranges_list axis_consts upto_rec1 Let_def pad_def
        libevdev_has_event_code_def libevdev_set_abs_minimum_def libevdev_set_abs_maximum_def
        zero_range_def)

text \<open>
  Numbers that do not fit are stored wrapped: the line
  \<open>axis 4294967297: min = -1, max = 2\<close> marks axis 1 present with \<open>min = 4294967295\<close>.
\<close>

lemma read_wrapped_numbers:
  "read_ranges (Suc (Suc fuel)) indet 0
      \<lparr>buf = ''axis 4294967297: min = -1, max = 2\<newline>'', eof = False\<rparr> zero_ranges 0
     = Some (Inr (zero_ranges[1 := \<lparr>present = True, min_val = 4294967295, max_val = 2\<rparr>], 0))"
proof -
  have w: "(18446744073709551615 :: 32 word) = 4294967295"
    by (simp add: word_uint_eq_iff take_bit_eq_mod)
  show ?thesis
    by (simp add: scan_eval axis_consts w)
qed

end
